theory Spec2Isabelle
  imports Complex_Main "HOL-Library.Word"
begin

section \<open>Strings, bytes and files\<close>

text \<open>
  An ECMAScript string is a sequence of 16-bit code units; a byte buffer is a sequence of
  octets. Numbers that the code uses as sizes and offsets are modelled as unbounded
  integers (the fractional and non-finite values of a double are outside the model);
  the two progress ratios are modelled as reals.
\<close>

type_synonym jsstring = "16 word list"
type_synonym bytes = "8 word list"

definition str :: "string \<Rightarrow> jsstring" where
  "str s = map (\<lambda>c. of_nat (of_char c)) s"

text \<open>The relational comparison \<^verbatim>\<open>a < b\<close> of two strings: code unit by code unit, a
  proper prefix sorting first.\<close>

fun js_lt :: "jsstring \<Rightarrow> jsstring \<Rightarrow> bool" where
  "js_lt [] [] = False"
| "js_lt [] (y # ys) = True"
| "js_lt (x # xs) [] = False"
| "js_lt (x # xs) (y # ys) = (if x < y then True else if y < x then False else js_lt xs ys)"

record File =
  file_name :: jsstring
  file_type :: jsstring
  file_bytes :: bytes

definition file_size :: "File \<Rightarrow> int" where
  "file_size f = int (length (file_bytes f))"

text \<open>\<^verbatim>\<open>Blob.slice(start, end)\<close>: a negative position counts from the end, and both
  positions are clamped to the blob.\<close>

definition blob_slice :: "bytes \<Rightarrow> int \<Rightarrow> int \<Rightarrow> bytes" where
  "blob_slice b start end' =
     (let sz = int (length b);
          relativeStart = (if start < 0 then max (sz + start) 0 else min start sz);
          relativeEnd = (if end' < 0 then max (sz + end') 0 else min end' sz);
          span = max (relativeEnd - relativeStart) 0
      in take (nat span) (drop (nat relativeStart) b))"

section \<open>FileChunker\<close>

definition DEFAULT_CHUNK_SIZE_BYTES :: int where
  "DEFAULT_CHUNK_SIZE_BYTES = 64000"

definition DEFAULT_MAX_PARTITION_SIZE_BYTES :: int where
  "DEFAULT_MAX_PARTITION_SIZE_BYTES = 1000000"

record FileChunker =
  chunkSize :: int
  maxPartitionSize :: int
  offset :: int
  partitionSize :: int
  inProgress :: bool
  file_c :: File

text \<open>The two callbacks of the chunker are modelled by the list of their invocations.\<close>

datatype chunker_event = OnChunk bytes | OnPartitionEnd int

datatype chunker_error = PartitionReadInProgress | RepeatWhileInProgress

definition FileChunker_new :: "File \<Rightarrow> int option \<Rightarrow> int option \<Rightarrow> FileChunker" where
  "FileChunker_new f cs mps =
     \<lparr> chunkSize = (case cs of Some n \<Rightarrow> n | None \<Rightarrow> DEFAULT_CHUNK_SIZE_BYTES),
       maxPartitionSize = (case mps of Some n \<Rightarrow> n | None \<Rightarrow> DEFAULT_MAX_PARTITION_SIZE_BYTES),
       offset = 0, partitionSize = 0, inProgress = False, file_c = f \<rparr>"

definition chunker_progress :: "FileChunker \<Rightarrow> real" where
  "chunker_progress c =
     (if file_size (file_c c) = 0 then 1 else real_of_int (offset c) / real_of_int (file_size (file_c c)))"

definition isFileEnd :: "FileChunker \<Rightarrow> bool" where
  "isFileEnd c = (offset c \<ge> file_size (file_c c))"

definition isPartitionEnd :: "FileChunker \<Rightarrow> bool" where
  "isPartitionEnd c = (partitionSize c \<ge> maxPartitionSize c)"

definition readChunk :: "FileChunker \<Rightarrow> bytes" where
  "readChunk c = blob_slice (file_bytes (file_c c)) (offset c) (offset c + chunkSize c)"

definition advance :: "FileChunker \<Rightarrow> bytes \<Rightarrow> FileChunker" where
  "advance c chunk = c\<lparr> offset := offset c + int (length chunk),
                         partitionSize := partitionSize c + int (length chunk) \<rparr>"

text \<open>The \<^verbatim>\<open>while\<close> loop of \<^verbatim>\<open>nextPartition\<close>, with its \<^verbatim>\<open>break\<close> on an empty
  chunk. Every iteration that continues moves the offset forward, towards the file's end.\<close>

function chunk_loop :: "FileChunker \<Rightarrow> chunker_event list \<Rightarrow> FileChunker \<times> chunker_event list" where
  "chunk_loop c evs =
     (if \<not> isFileEnd c \<and> \<not> isPartitionEnd c then
        (let chunk = readChunk c in
         if length chunk = 0 then (c, evs)
         else chunk_loop (advance c chunk) (evs @ [OnChunk chunk]))
      else (c, evs))"
  by pat_completeness auto
termination
  by (relation "measure (\<lambda>(c, evs). nat (file_size (file_c c) - offset c))")
     (auto simp: advance_def isFileEnd_def)

record partition_result =
  res_offset :: int
  res_fileEnd :: bool

definition nextPartition ::
  "FileChunker \<Rightarrow> chunker_error + (partition_result \<times> FileChunker \<times> chunker_event list)" where
  "nextPartition c =
     (if inProgress c then Inl PartitionReadInProgress
      else if isFileEnd c then Inr (\<lparr> res_offset = offset c, res_fileEnd = True \<rparr>, c, [])
      else
        (let (c1, evs) = chunk_loop (c\<lparr> inProgress := True, partitionSize := 0 \<rparr>) [];
             evs' = (if \<not> isFileEnd c1 \<and> isPartitionEnd c1 then evs @ [OnPartitionEnd (offset c1)] else evs)
         in Inr (\<lparr> res_offset = offset c1, res_fileEnd = isFileEnd c1 \<rparr>,
                 c1\<lparr> inProgress := False \<rparr>, evs')))"

definition repeatPartition ::
  "FileChunker \<Rightarrow> chunker_error + (partition_result \<times> FileChunker \<times> chunker_event list)" where
  "repeatPartition c =
     (if inProgress c then Inl RepeatWhileInProgress
      else nextPartition (c\<lparr> offset := max 0 (offset c - partitionSize c) \<rparr>))"

text \<open>Driving a chunker to the end of its file: \<^verbatim>\<open>nextPartition\<close> is called again after
  every partition that did not end the file, as the transfer engine does on each
  acknowledgement. A chunker that makes no progress would be called for ever, so the
  driver counts its calls down from a bound and returns \<open>None\<close> when the bound is used up.\<close>

fun driveToEnd :: "nat \<Rightarrow> FileChunker \<Rightarrow> (FileChunker \<times> chunker_event list) option" where
  "driveToEnd 0 c = None"
| "driveToEnd (Suc n) c =
     (case nextPartition c of
        Inl e \<Rightarrow> None
      | Inr (r, c1, evs) \<Rightarrow>
          if res_fileEnd r then Some (c1, evs)
          else (case driveToEnd n c1 of
                  None \<Rightarrow> None
                | Some (c2, evs2) \<Rightarrow> Some (c2, evs @ evs2)))"

section \<open>FileDigester\<close>

record FileMeta =
  meta_size :: int
  meta_mime :: "jsstring option"
  meta_name :: jsstring

record Blob =
  blob_bytes :: bytes
  blob_type :: jsstring

record ReceivedFile =
  rf_name :: jsstring
  rf_mime :: jsstring
  rf_size :: int
  rf_blob :: Blob

datatype digest_error =
    NegativeMetaSize
  | ChunkLargerThanRemaining
  | FileDigestAborted
  | NewHeaderBeforeCompletion
  | TransferDestroyed

datatype 'a promise = Pending | Resolved 'a | Rejected digest_error

record FileDigester =
  meta :: FileMeta
  buffer :: "bytes list"
  bytesReceivedInternal :: int
  settled :: bool
  mime :: jsstring
  done_p :: "ReceivedFile promise"

text \<open>The blob carries the digester's MIME type as it is; the lower-casing that the
  \<^verbatim>\<open>Blob\<close> constructor applies to a type is not modelled.\<close>

definition complete_digest :: "FileDigester \<Rightarrow> FileDigester" where
  "complete_digest d =
     (if settled d then d
      else d\<lparr> settled := True,
              done_p := Resolved \<lparr> rf_name = meta_name (meta d), rf_mime = mime d,
                                   rf_size = meta_size (meta d),
                                   rf_blob = \<lparr> blob_bytes = concat (buffer d), blob_type = mime d \<rparr> \<rparr> \<rparr>)"

definition abort :: "FileDigester \<Rightarrow> digest_error option \<Rightarrow> FileDigester" where
  "abort d reason =
     (if settled d then d
      else d\<lparr> settled := True,
              done_p := Rejected (case reason of Some r \<Rightarrow> r | None \<Rightarrow> FileDigestAborted) \<rparr>)"

definition FileDigester_new :: "FileMeta \<Rightarrow> digest_error + FileDigester" where
  "FileDigester_new m =
     (if meta_size m < 0 then Inl NegativeMetaSize
      else
        (let d = \<lparr> meta = m, buffer = [], bytesReceivedInternal = 0, settled = False,
                   mime = (case meta_mime m of
                             Some t \<Rightarrow> if length t > 0 then t else str ''application/octet-stream''
                           | None \<Rightarrow> str ''application/octet-stream''),
                   done_p = Pending \<rparr>
         in Inr (if meta_size m = 0 then complete_digest d else d)))"

definition digester_progress :: "FileDigester \<Rightarrow> real" where
  "digester_progress d =
     (if meta_size (meta d) = 0 then 1
      else real_of_int (bytesReceivedInternal d) / real_of_int (meta_size (meta d)))"

definition unchunk :: "FileDigester \<Rightarrow> bytes \<Rightarrow> FileDigester" where
  "unchunk d chunk =
     (if settled d then d
      else
        (let chunkSize' = int (length chunk) in
         if chunkSize' = 0 then d
         else
           (let remaining = meta_size (meta d) - bytesReceivedInternal d in
            if remaining \<le> 0 then complete_digest d
            else if chunkSize' > remaining then abort d (Some ChunkLargerThanRemaining)
            else
              (let d1 = d\<lparr> buffer := buffer d @ [chunk],
                            bytesReceivedInternal := bytesReceivedInternal d + chunkSize' \<rparr>
               in if bytesReceivedInternal d1 = meta_size (meta d1) then complete_digest d1 else d1))))"

text \<open>Handing the chunks that a chunker emitted to a digester, in the order of emission;
  a partition boundary carries no bytes.\<close>

fun feed :: "FileDigester \<Rightarrow> chunker_event list \<Rightarrow> FileDigester" where
  "feed d [] = d"
| "feed d (OnChunk b # evs) = feed (unchunk d b) evs"
| "feed d (OnPartitionEnd k # evs) = feed d evs"

text \<open>A digester's life after its construction: calls of \<^verbatim>\<open>unchunk\<close> and \<^verbatim>\<open>abort\<close>.\<close>

datatype digester_call = Unchunk bytes | Abort "digest_error option"

fun digester_step :: "FileDigester \<Rightarrow> digester_call \<Rightarrow> FileDigester" where
  "digester_step d (Unchunk b) = unchunk d b"
| "digester_step d (Abort r) = abort d r"


text \<open>The bytes of the chunks among a chunker's callbacks, in order.\<close>

fun chunks_of :: "chunker_event list \<Rightarrow> bytes list" where
  "chunks_of [] = []"
| "chunks_of (OnChunk b # evs) = b # chunks_of evs"
| "chunks_of (OnPartitionEnd k # evs) = chunks_of evs"

section \<open>The transfer engine\<close>

text \<open>
  \<^verbatim>\<open>FileTransfer\<close> is modelled with its data channel open, so that \<^verbatim>\<open>sendRaw\<close>
  delivers every payload: what the engine sends and the callbacks it invokes are returned
  as a list, in the order of the calls. A callback registered on the digester's promise
  runs once the handler that settled the promise has returned, so its outputs come last.
  An exception leaves the handler with the state as it was when it was thrown.
  A text frame is a message of one of the five kinds, a text that does not parse, or a
  parsed object of another kind; a text that parses to something that is not an object
  is not among the frames. The progress ratio is a real number, so the comparison with
  the one-percent step is exact, where the code compares doubles.
\<close>

datatype TransferMessage =
    Header jsstring "jsstring option" int
  | Partition int
  | PartitionReceived int
  | Progress real
  | TransferComplete

datatype payload = Text TransferMessage | Binary bytes

datatype incoming =
    InMessage TransferMessage
  | InUnparseable
  | InUnknownType
  | InBinary bytes

datatype ft_output =
    SendRaw payload
  | OnFileReceived ReceivedFile
  | OnProgress real
  | OnTransferCompleted

datatype ft_error = DigesterError digest_error | ChunkerError chunker_error

record FileTransfer =
  ft_peerId :: jsstring
  filesQueue :: "File list"
  busy :: bool
  chunker :: "FileChunker option"
  digester :: "FileDigester option"
  lastProgress :: real

type_synonym ft_result = "(ft_error \<times> FileTransfer) + (FileTransfer \<times> ft_output list)"

definition FileTransfer_new :: "jsstring \<Rightarrow> FileTransfer" where
  "FileTransfer_new pid =
     \<lparr> ft_peerId = pid, filesQueue = [], busy = False, chunker = None, digester = None,
       lastProgress = 0 \<rparr>"

definition sendJSON :: "TransferMessage \<Rightarrow> ft_output list" where
  "sendJSON m = [SendRaw (Text m)]"

fun chunker_callback :: "chunker_event \<Rightarrow> ft_output" where
  "chunker_callback (OnChunk b) = SendRaw (Binary b)"
| "chunker_callback (OnPartitionEnd k) = SendRaw (Text (Partition k))"

definition run_chunker :: "FileTransfer \<Rightarrow> FileChunker \<Rightarrow> ft_output list \<Rightarrow> ft_result" where
  "run_chunker ft c outs =
     (case nextPartition c of
        Inl e \<Rightarrow> Inl (ChunkerError e, ft\<lparr> chunker := Some c \<rparr>)
      | Inr (r, c1, evs) \<Rightarrow> Inr (ft\<lparr> chunker := Some c1 \<rparr>, outs @ map chunker_callback evs))"

definition sendFile :: "FileTransfer \<Rightarrow> File \<Rightarrow> ft_result" where
  "sendFile ft f =
     run_chunker ft (FileChunker_new f None None)
       (sendJSON (Header (file_name f) (Some (file_type f)) (file_size f)))"

definition dequeueFile :: "FileTransfer \<Rightarrow> ft_result" where
  "dequeueFile ft =
     (case filesQueue ft of
        [] \<Rightarrow> Inr (ft\<lparr> busy := False \<rparr>, [])
      | f # rest \<Rightarrow> sendFile (ft\<lparr> filesQueue := rest, busy := True \<rparr>) f)"

definition sendFiles :: "FileTransfer \<Rightarrow> File list \<Rightarrow> ft_result" where
  "sendFiles ft files =
     (let ft1 = ft\<lparr> filesQueue := filesQueue ft @ files \<rparr>
      in if busy ft1 then Inr (ft1, []) else dequeueFile ft1)"

definition onPartitionEnd :: "int \<Rightarrow> ft_output list" where
  "onPartitionEnd k = sendJSON (Partition k)"

definition onReceivedPartitionEnd :: "int \<Rightarrow> ft_output list" where
  "onReceivedPartitionEnd k = sendJSON (PartitionReceived k)"

definition sendNextPartition :: "FileTransfer \<Rightarrow> ft_result" where
  "sendNextPartition ft =
     (case chunker ft of
        None \<Rightarrow> Inr (ft, [])
      | Some c \<Rightarrow> if isFileEnd c then Inr (ft, []) else run_chunker ft c [])"

definition sendProgress :: "real \<Rightarrow> ft_output list" where
  "sendProgress p = sendJSON (Progress p)"

definition onDownloadProgress :: "real \<Rightarrow> ft_output list" where
  "onDownloadProgress p = [OnProgress p]"

text \<open>The callbacks that \<^verbatim>\<open>onFileHeader\<close> registers on \<^verbatim>\<open>digester.done\<close>: they run when
  a call takes the promise from pending to resolved; a rejection is only logged.\<close>

definition done_callbacks :: "ReceivedFile promise \<Rightarrow> ReceivedFile promise \<Rightarrow> ft_output list" where
  "done_callbacks p0 p1 =
     (case (p0, p1) of
        (Pending, Resolved rf) \<Rightarrow> OnFileReceived rf # sendJSON TransferComplete
      | _ \<Rightarrow> [])"

definition onFileHeader :: "FileTransfer \<Rightarrow> jsstring \<Rightarrow> jsstring option \<Rightarrow> int \<Rightarrow> ft_result" where
  "onFileHeader ft name mime' size' =
     (let ft1 = ft\<lparr> lastProgress := 0 \<rparr>;
          ft2 = ft1\<lparr> digester := map_option (\<lambda>d. abort d (Some NewHeaderBeforeCompletion)) (digester ft1) \<rparr>
      in case FileDigester_new \<lparr> meta_size = size', meta_mime = mime', meta_name = name \<rparr> of
           Inl e \<Rightarrow> Inl (DigesterError e, ft2)
         | Inr d \<Rightarrow> Inr (ft2\<lparr> digester := Some d \<rparr>, done_callbacks Pending (done_p d)))"

definition onChunkReceived :: "FileTransfer \<Rightarrow> bytes \<Rightarrow> ft_result" where
  "onChunkReceived ft chunk =
     (case digester ft of
        None \<Rightarrow> Inr (ft, [])
      | Some d \<Rightarrow>
          if length chunk = 0 then Inr (ft, [])
          else
            (let d1 = unchunk d chunk;
                 ft1 = ft\<lparr> digester := Some d1 \<rparr>;
                 progress = digester_progress d1;
                 outs = onDownloadProgress progress;
                 settle = done_callbacks (done_p d) (done_p d1)
             in if progress - lastProgress ft1 < 1 / 100 \<and> progress < 1
                then Inr (ft1, outs @ settle)
                else Inr (ft1\<lparr> lastProgress := progress \<rparr>, outs @ sendProgress progress @ settle)))"

definition onTransferCompletedByPeer :: "FileTransfer \<Rightarrow> ft_result" where
  "onTransferCompletedByPeer ft =
     (case dequeueFile (ft\<lparr> chunker := None, busy := False \<rparr>) of
        Inl e \<Rightarrow> Inl e
      | Inr (ft1, outs) \<Rightarrow> Inr (ft1, onDownloadProgress 1 @ [OnTransferCompleted] @ outs))"

fun handleIncomingMessage :: "FileTransfer \<Rightarrow> incoming \<Rightarrow> ft_result" where
  "handleIncomingMessage ft (InBinary b) = onChunkReceived ft b"
| "handleIncomingMessage ft InUnparseable = Inr (ft, [])"
| "handleIncomingMessage ft InUnknownType = Inr (ft, [])"
| "handleIncomingMessage ft (InMessage (Header name mime' size')) = onFileHeader ft name mime' size'"
| "handleIncomingMessage ft (InMessage (Partition k)) = Inr (ft, onReceivedPartitionEnd k)"
| "handleIncomingMessage ft (InMessage (PartitionReceived k)) = sendNextPartition ft"
| "handleIncomingMessage ft (InMessage (Progress p)) = Inr (ft, onDownloadProgress p)"
| "handleIncomingMessage ft (InMessage TransferComplete) = onTransferCompletedByPeer ft"

definition ft_destroy :: "FileTransfer \<Rightarrow> FileTransfer" where
  "ft_destroy ft =
     ft\<lparr> filesQueue := [], busy := False, chunker := None,
         digester := None, lastProgress := 0 \<rparr>"

text \<open>The digester that \<^verbatim>\<open>destroy\<close> lets go of, after its \<^verbatim>\<open>abort\<close>.\<close>

definition ft_destroyed_digester :: "FileTransfer \<Rightarrow> FileDigester option" where
  "ft_destroyed_digester ft = map_option (\<lambda>d. abort d (Some TransferDestroyed)) (digester ft)"


section \<open>Two transfer engines on one data channel\<close>

text \<open>
  A sending and a receiving \<^verbatim>\<open>FileTransfer\<close> joined by an ordered, reliable channel.
  Payloads are delivered one at a time, in the order they were sent in each direction;
  the payloads on their way to the receiver are delivered first. The link keeps what the
  sender was handed and what it put out, and for every delivery to the receiver what the
  receiver put out together with the number of bytes its digester had received by then.
  The run stops when nothing is in flight; it counts its deliveries down from a bound and
  returns \<open>None\<close> when the bound is used up.
\<close>

record link =
  sender :: FileTransfer
  receiver :: FileTransfer
  to_receiver :: "payload list"
  to_sender :: "payload list"
  sender_in :: "payload list"
  sender_out :: "ft_output list"
  receiver_log :: "(ft_output list \<times> int) list"

fun deliver :: "payload \<Rightarrow> incoming" where
  "deliver (Text m) = InMessage m"
| "deliver (Binary b) = InBinary b"

fun sends :: "ft_output list \<Rightarrow> payload list" where
  "sends [] = []"
| "sends (SendRaw p # outs) = p # sends outs"
| "sends (_ # outs) = sends outs"

definition received_bytes :: "FileTransfer \<Rightarrow> int" where
  "received_bytes ft = (case digester ft of None \<Rightarrow> 0 | Some d \<Rightarrow> bytesReceivedInternal d)"

definition link_step :: "link \<Rightarrow> (ft_error + link) option" where
  "link_step l =
     (case to_receiver l of
        p # ps \<Rightarrow>
          (case handleIncomingMessage (receiver l) (deliver p) of
             Inl (e, r1) \<Rightarrow> Some (Inl e)
           | Inr (r1, outs) \<Rightarrow>
               Some (Inr (l\<lparr> receiver := r1, to_receiver := ps,
                              to_sender := to_sender l @ sends outs,
                              receiver_log := receiver_log l @ [(outs, received_bytes r1)] \<rparr>)))
      | [] \<Rightarrow>
          (case to_sender l of
             [] \<Rightarrow> None
           | q # qs \<Rightarrow>
               (case handleIncomingMessage (sender l) (deliver q) of
                  Inl (e, s1) \<Rightarrow> Some (Inl e)
                | Inr (s1, outs) \<Rightarrow>
                    Some (Inr (l\<lparr> sender := s1, to_sender := qs,
                                   to_receiver := sends outs,
                                   sender_in := sender_in l @ [q],
                                   sender_out := sender_out l @ outs \<rparr>)))))"

fun link_run :: "nat \<Rightarrow> link \<Rightarrow> (ft_error + link) option" where
  "link_run 0 l = None"
| "link_run (Suc n) l =
     (case link_step l of
        None \<Rightarrow> Some (Inr l)
      | Some (Inl e) \<Rightarrow> Some (Inl e)
      | Some (Inr l1) \<Rightarrow> link_run n l1)"

text \<open>\<open>transfer a b f n\<close>: the engine for peer \<open>b\<close> is asked to send the file \<open>f\<close> to a
  fresh engine for peer \<open>a\<close>.\<close>

definition transfer :: "jsstring \<Rightarrow> jsstring \<Rightarrow> File \<Rightarrow> nat \<Rightarrow> (ft_error + link) option" where
  "transfer a b f n =
     (case sendFiles (FileTransfer_new b) [f] of
        Inl (e, s1) \<Rightarrow> Some (Inl e)
      | Inr (s1, outs) \<Rightarrow>
          link_run n \<lparr> sender = s1, receiver = FileTransfer_new a, to_receiver = sends outs,
                       to_sender = [], sender_in = [], sender_out = outs, receiver_log = [] \<rparr>)"

text \<open>The offsets of the partition boundaries among an engine's outputs, and the byte
  counts at which the receiver answered \<^verbatim>\<open>transfer-complete\<close>.\<close>

fun partition_msgs :: "ft_output list \<Rightarrow> int list" where
  "partition_msgs [] = []"
| "partition_msgs (SendRaw (Text (Partition k)) # outs) = k # partition_msgs outs"
| "partition_msgs (_ # outs) = partition_msgs outs"

definition completions :: "(ft_output list \<times> int) list \<Rightarrow> int list" where
  "completions lg = map snd (filter (\<lambda>(outs, n). SendRaw (Text TransferComplete) \<in> set outs) lg)"

text \<open>The chunk that a chunker with the default chunk size reads at offset \<open>k\<close>.\<close>

definition file_chunk :: "File \<Rightarrow> int \<Rightarrow> bytes" where
  "file_chunk f k = blob_slice (file_bytes f) k (k + DEFAULT_CHUNK_SIZE_BYTES)"

section \<open>SignalingConnection: ICE servers\<close>

record IceServerInfo =
  urls :: "jsstring list"
  username :: "jsstring option"
  credential :: "jsstring option"

datatype IceMode = Mode_server | Mode_stun | Mode_none

text \<open>The fields of the connection that decide the ICE servers: the list cached from the
  relay's HELLO and the configured mode.\<close>

record SignalingConnection =
  sc_iceServers :: "IceServerInfo list"
  sc_iceMode :: IceMode

definition defaultStunServer :: IceServerInfo where
  "defaultStunServer = \<lparr> urls = [str ''stun:stun.l.google.com:19302''], username = None, credential = None \<rparr>"

definition getIceServers :: "SignalingConnection \<Rightarrow> IceServerInfo list" where
  "getIceServers sc =
     (if sc_iceMode sc = Mode_none then []
      else if sc_iceMode sc = Mode_stun then [defaultStunServer]
      else if length (sc_iceServers sc) > 0 then sc_iceServers sc
      else [defaultStunServer])"

definition getIceMode :: "SignalingConnection \<Rightarrow> IceMode" where
  "getIceMode sc = sc_iceMode sc"

text \<open>A HELLO from the relay replaces the cached list when it carries one.\<close>

definition onHello :: "SignalingConnection \<Rightarrow> IceServerInfo list option \<Rightarrow> SignalingConnection" where
  "onHello sc servers = (case servers of Some l \<Rightarrow> sc\<lparr> sc_iceServers := l \<rparr> | None \<Rightarrow> sc)"


section \<open>ConnectionSession (Peer)\<close>

subsection \<open>Candidate strings\<close>

fun js_split :: "'a \<Rightarrow> 'a list \<Rightarrow> 'a list list" where
  "js_split sep [] = [[]]"
| "js_split sep (x # xs) =
     (if x = sep then [] # js_split sep xs
      else (case js_split sep xs of p # ps \<Rightarrow> (x # p) # ps | [] \<Rightarrow> [[x]]))"

fun js_join :: "'a list \<Rightarrow> 'a list list \<Rightarrow> 'a list" where
  "js_join sep [] = []"
| "js_join sep [p] = p"
| "js_join sep (p # q # ps) = p @ sep @ js_join sep (q # ps)"

fun indexOf :: "'a list \<Rightarrow> 'a \<Rightarrow> nat option" where
  "indexOf [] x = None"
| "indexOf (y # ys) x = (if y = x then Some 0 else map_option Suc (indexOf ys x))"

definition endsWith :: "'a list \<Rightarrow> 'a list \<Rightarrow> bool" where
  "endsWith s suf = (length suf \<le> length s \<and> drop (length s - length suf) s = suf)"

definition space :: "16 word" where
  "space = 32"

record RTCIceCandidateInit =
  candidate :: "jsstring option"
  sdpMid :: "jsstring option"
  sdpMLineIndex :: "nat option"
  usernameFragment :: "jsstring option"

definition detectCandidateType :: "jsstring option \<Rightarrow> jsstring" where
  "detectCandidateType rawCandidate =
     (case rawCandidate of
        None \<Rightarrow> str ''unknown''
      | Some raw \<Rightarrow>
          if raw = [] then str ''unknown''
          else
            (let parts = js_split space raw in
             case indexOf parts (str ''typ'') of
               None \<Rightarrow> str ''unknown''
             | Some typIndex \<Rightarrow>
                 if typIndex + 1 \<ge> length parts then str ''unknown''
                 else if parts ! (typIndex + 1) = [] then str ''unknown''
                 else parts ! (typIndex + 1)))"

definition rewriteMdnsHostToLoopback :: "RTCIceCandidateInit \<Rightarrow> RTCIceCandidateInit" where
  "rewriteMdnsHostToLoopback c =
     (case candidate c of
        None \<Rightarrow> c
      | Some raw \<Rightarrow>
          if raw = [] then c
          else
            (let parts = js_split space raw in
             if length parts < 8 then c
             else
               (let type' = detectCandidateType (Some raw);
                    address = parts ! 4
                in if type' \<noteq> str ''host'' \<or> \<not> endsWith address (str ''.local'') then c
                   else c\<lparr> candidate := Some (js_join [space] (parts[4 := str ''127.0.0.1''])) \<rparr>)))"

subsection \<open>The transport\<close>

text \<open>
  The browser's \<^verbatim>\<open>RTCPeerConnection\<close> is outside the repository. The model keeps the
  attributes of it that the session reads; the session's calls on it are returned as
  effects, in the order of the calls, and whether an asynchronous call succeeds is an input.
  A call of \<^verbatim>\<open>addIceCandidate\<close> that fails is caught and logged by the session, so the
  effect stands for the attempt. Every handler runs to its end before the next event is
  taken up.
\<close>

datatype sdp_type = Offer | Answer

record RTCSessionDescriptionInit =
  sd_type :: sdp_type
  sd_sdp :: jsstring

datatype SignalingState =
  Stable | HaveLocalOffer | HaveRemoteOffer | HaveLocalPranswer | HaveRemotePranswer | SignalingClosed

datatype IceConnectionState =
  IceNew | IceChecking | IceConnected | IceCompleted | IceFailed | IceDisconnected | IceClosed

datatype PeerConnectionState =
  ConnNew | ConnConnecting | ConnConnected | ConnDisconnected | ConnFailed | ConnClosed

datatype DataChannelState = DcConnecting | DcOpen | DcClosing | DcClosed

record RTCPeerConnection =
  pc_iceServers :: "IceServerInfo list"
  remoteDescription :: "RTCSessionDescriptionInit option"
  signalingState :: SignalingState
  iceConnectionState :: IceConnectionState
  connectionState :: PeerConnectionState

datatype WsClientMessage =
    OFFER jsstring jsstring jsstring
  | ANSWER jsstring jsstring jsstring
  | CANDIDATE jsstring jsstring "RTCIceCandidateInit option"

datatype pc_call =
    AddIceCandidate RTCIceCandidateInit
  | AddEndOfCandidates
  | RestartIce
  | CreateOffer bool
  | CreateAnswer
  | SetLocalDescription sdp_type
  | SetRemoteDescription RTCSessionDescriptionInit
  | CreateDataChannel
  | CloseDataChannel
  | ClosePeerConnection

datatype effect =
    Call pc_call
  | Signal WsClientMessage
  | ConnectionStateChanged PeerConnectionState
  | IceStateChanged IceConnectionState

text \<open>How the creation of a description and its installation as the local description
  end: the first fails, the second fails, or both succeed with the given SDP.\<close>

datatype negotiation = CreateFails | SetLocalFails | Negotiated jsstring

subsection \<open>The session\<close>

record Peer =
  pc :: "RTCPeerConnection option"
  dc :: "DataChannelState option"
  peerId :: jsstring
  sessionId :: jsstring
  isConnected :: bool
  isCaller :: bool
  iceServers :: "IceServerInfo list"
  forceLoopbackHostCandidates :: bool
  pendingCandidates :: "RTCIceCandidateInit list"
  pendingEndOfCandidates :: bool
  lastConnectionState :: "PeerConnectionState option"
  iceRestartAttempts :: nat
  localCandidateCounts :: "jsstring \<rightharpoonup> nat"
  remoteCandidateCounts :: "jsstring \<rightharpoonup> nat"
  fileTransfer :: FileTransfer

definition maxIceRestartAttempts :: nat where
  "maxIceRestartAttempts = 1"

definition Peer_new :: "jsstring \<Rightarrow> jsstring \<Rightarrow> bool option \<Rightarrow> Peer" where
  "Peer_new pid sid force =
     \<lparr> pc = None, dc = None, peerId = pid, sessionId = sid, isConnected = False, isCaller = False,
       iceServers = [],
       forceLoopbackHostCandidates = (case force of Some b \<Rightarrow> b | None \<Rightarrow> False),
       pendingCandidates = [], pendingEndOfCandidates = False, lastConnectionState = None,
       iceRestartAttempts = 0, localCandidateCounts = Map.empty, remoteCandidateCounts = Map.empty,
       fileTransfer = FileTransfer_new pid \<rparr>"

text \<open>The tallies are finite maps from the candidate type; the members that a plain
  object inherits are not modelled.\<close>

definition bumpCandidate :: "(jsstring \<rightharpoonup> nat) \<Rightarrow> jsstring \<Rightarrow> (jsstring \<rightharpoonup> nat)" where
  "bumpCandidate counter type' =
     (let key = (if type' = [] then str ''unknown'' else type')
      in counter(key \<mapsto> (case counter key of Some n \<Rightarrow> n | None \<Rightarrow> 0) + 1))"

definition createOffer :: "Peer \<Rightarrow> bool \<Rightarrow> negotiation \<Rightarrow> Peer \<times> effect list" where
  "createOffer p iceRestart neg =
     (case pc p of
        None \<Rightarrow> (p, [])
      | Some t \<Rightarrow>
          (case neg of
             CreateFails \<Rightarrow> (p, [Call (CreateOffer iceRestart)])
           | SetLocalFails \<Rightarrow> (p, [Call (CreateOffer iceRestart), Call (SetLocalDescription Offer)])
           | Negotiated sdp \<Rightarrow>
               (p, [Call (CreateOffer iceRestart), Call (SetLocalDescription Offer),
                    Signal (OFFER (sessionId p) (peerId p) sdp)])))"

definition createDataChannel :: "Peer \<Rightarrow> Peer \<times> effect list" where
  "createDataChannel p =
     (if pc p = None \<or> dc p \<noteq> None then (p, [])
      else (p\<lparr> dc := Some DcConnecting \<rparr>, [Call CreateDataChannel]))"

definition createPeerConnection :: "Peer \<Rightarrow> negotiation \<Rightarrow> Peer \<times> effect list" where
  "createPeerConnection p neg =
     (if pc p \<noteq> None then (p, [])
      else
        (let p1 = p\<lparr> pc := Some \<lparr> pc_iceServers = iceServers p, remoteDescription = None,
                                   signalingState = Stable, iceConnectionState = IceNew,
                                   connectionState = ConnNew \<rparr> \<rparr>
         in if isCaller p1 then
              (let (p2, e2) = createDataChannel p1;
                   (p3, e3) = createOffer p2 False neg
               in (p3, e2 @ e3))
            else (p1, [])))"

definition flushPendingCandidates :: "Peer \<Rightarrow> Peer \<times> effect list" where
  "flushPendingCandidates p =
     (case pc p of
        None \<Rightarrow> (p, [])
      | Some t \<Rightarrow>
          if remoteDescription t = None then (p, [])
          else
            (let candidates = pendingCandidates p;
                 p1 = p\<lparr> pendingCandidates := [] \<rparr>;
                 e1 = map (\<lambda>c. Call (AddIceCandidate c)) candidates
             in if \<not> pendingEndOfCandidates p1 then (p1, e1)
                else (p1\<lparr> pendingEndOfCandidates := False \<rparr>, e1 @ [Call AddEndOfCandidates])))"

definition answer_effects :: "Peer \<Rightarrow> negotiation \<Rightarrow> effect list" where
  "answer_effects p neg =
     (case neg of
        CreateFails \<Rightarrow> [Call CreateAnswer]
      | SetLocalFails \<Rightarrow> [Call CreateAnswer, Call (SetLocalDescription Answer)]
      | Negotiated sdp \<Rightarrow>
          [Call CreateAnswer, Call (SetLocalDescription Answer),
           Signal (ANSWER (sessionId p) (peerId p) sdp)])"

text \<open>\<open>HandlerOffer p offer neg0 ok neg\<close>: \<open>ok\<close> says whether \<^verbatim>\<open>setRemoteDescription\<close>
  succeeds; \<open>neg0\<close> is the outcome of the offer that a caller without a transport would
  create first, \<open>neg\<close> the outcome of the answer. The effects of that first offer are
  listed as a whole before the others, although the code does not wait for it.\<close>

definition HandlerOffer ::
  "Peer \<Rightarrow> RTCSessionDescriptionInit \<Rightarrow> negotiation \<Rightarrow> bool \<Rightarrow> negotiation \<Rightarrow> Peer \<times> effect list" where
  "HandlerOffer p offer neg0 ok neg =
     (let (p0, e0) = (if pc p = None then createPeerConnection p neg0 else (p, [])) in
      case pc p0 of
        None \<Rightarrow> (p0, e0)
      | Some t \<Rightarrow>
          if \<not> ok then (p0, e0 @ [Call (SetRemoteDescription offer)])
          else
            (let p1 = p0\<lparr> pc := Some (t\<lparr> remoteDescription := Some offer \<rparr>) \<rparr>;
                 (p2, e2) = flushPendingCandidates p1
             in (p2, e0 @ [Call (SetRemoteDescription offer)] @ e2 @ answer_effects p2 neg)))"

definition HandleAnswer :: "Peer \<Rightarrow> RTCSessionDescriptionInit \<Rightarrow> bool \<Rightarrow> Peer \<times> effect list" where
  "HandleAnswer p answer ok =
     (case pc p of
        None \<Rightarrow> (p, [])
      | Some t \<Rightarrow>
          if \<not> ok then (p, [Call (SetRemoteDescription answer)])
          else
            (let p1 = p\<lparr> pc := Some (t\<lparr> remoteDescription := Some answer \<rparr>) \<rparr>;
                 (p2, e2) = flushPendingCandidates p1
             in (p2, Call (SetRemoteDescription answer) # e2)))"

definition normalize :: "Peer \<Rightarrow> RTCIceCandidateInit \<Rightarrow> RTCIceCandidateInit" where
  "normalize p c = (if forceLoopbackHostCandidates p then rewriteMdnsHostToLoopback c else c)"

definition usable :: "RTCIceCandidateInit \<Rightarrow> bool" where
  "usable c = (case candidate c of None \<Rightarrow> False | Some raw \<Rightarrow> raw \<noteq> [])"

definition HandleCandidate :: "Peer \<Rightarrow> RTCIceCandidateInit option \<Rightarrow> Peer \<times> effect list" where
  "HandleCandidate p cand =
     (case pc p of
        None \<Rightarrow> (p, [])
      | Some t \<Rightarrow>
          (case cand of
             None \<Rightarrow>
               if remoteDescription t = None then (p\<lparr> pendingEndOfCandidates := True \<rparr>, [])
               else (p, [Call AddEndOfCandidates])
           | Some c \<Rightarrow>
               (let normalized = normalize p c in
                if \<not> usable normalized then (p, [])
                else
                  (let p1 = p\<lparr> remoteCandidateCounts :=
                                  bumpCandidate (remoteCandidateCounts p)
                                    (detectCandidateType (candidate normalized)) \<rparr>
                   in if remoteDescription t = None
                      then (p1\<lparr> pendingCandidates := pendingCandidates p1 @ [normalized] \<rparr>, [])
                      else (p1, [Call (AddIceCandidate normalized)])))))"

definition tryIceRestart :: "Peer \<Rightarrow> negotiation \<Rightarrow> Peer \<times> effect list" where
  "tryIceRestart p neg =
     (case pc p of
        None \<Rightarrow> (p, [])
      | Some t \<Rightarrow>
          if \<not> isCaller p then (p, [])
          else if iceRestartAttempts p \<ge> maxIceRestartAttempts then (p, [])
          else if signalingState t \<noteq> Stable then (p, [])
          else
            (let p1 = p\<lparr> iceRestartAttempts := iceRestartAttempts p + 1 \<rparr>;
                 (p2, e2) = createOffer p1 True neg
             in (p2, Call RestartIce # e2)))"

definition oniceconnectionstatechange :: "Peer \<Rightarrow> negotiation \<Rightarrow> Peer \<times> effect list" where
  "oniceconnectionstatechange p neg =
     (case pc p of
        None \<Rightarrow> (p, [])
      | Some t \<Rightarrow>
          (let iceState = iceConnectionState t;
               p1 = (if iceState = IceConnected \<or> iceState = IceCompleted
                     then p\<lparr> iceRestartAttempts := 0 \<rparr> else p)
           in if iceState = IceFailed then
                (let (p2, e2) = tryIceRestart p1 neg in (p2, IceStateChanged iceState # e2))
              else (p1, [IceStateChanged iceState])))"

definition destroy :: "Peer \<Rightarrow> Peer \<times> effect list" where
  "destroy p =
     (p\<lparr> fileTransfer := ft_destroy (fileTransfer p), dc := None, pc := None,
         isConnected := False, lastConnectionState := None, pendingCandidates := [],
         pendingEndOfCandidates := False, iceRestartAttempts := 0 \<rparr>,
      (if dc p \<noteq> None then [Call CloseDataChannel] else [])
      @ (if pc p \<noteq> None then [Call ClosePeerConnection] else [])
      @ [ConnectionStateChanged ConnClosed, IceStateChanged IceClosed])"

text \<open>What happens to a session: the transport changes one of its states (the change of
  the ICE state runs the session's handler), the registry hands over a message of the
  relay, or the session is opened or torn down.\<close>

datatype peer_event =
    EvIceConnectionState IceConnectionState negotiation
  | EvSignalingState SignalingState
  | EvCandidate "RTCIceCandidateInit option"
  | EvAnswer RTCSessionDescriptionInit bool
  | EvOffer RTCSessionDescriptionInit negotiation bool negotiation
  | EvCreatePeerConnection negotiation
  | EvDestroy

definition transport_ice :: "Peer \<Rightarrow> IceConnectionState \<Rightarrow> Peer" where
  "transport_ice p s = p\<lparr> pc := map_option (\<lambda>t. t\<lparr> iceConnectionState := s \<rparr>) (pc p) \<rparr>"

definition transport_signaling :: "Peer \<Rightarrow> SignalingState \<Rightarrow> Peer" where
  "transport_signaling p s = p\<lparr> pc := map_option (\<lambda>t. t\<lparr> signalingState := s \<rparr>) (pc p) \<rparr>"

fun peer_step :: "Peer \<Rightarrow> peer_event \<Rightarrow> Peer \<times> effect list" where
  "peer_step p (EvIceConnectionState s neg) = oniceconnectionstatechange (transport_ice p s) neg"
| "peer_step p (EvSignalingState s) = (transport_signaling p s, [])"
| "peer_step p (EvCandidate c) = HandleCandidate p c"
| "peer_step p (EvAnswer a ok) = HandleAnswer p a ok"
| "peer_step p (EvOffer a neg0 ok neg) = HandlerOffer p a neg0 ok neg"
| "peer_step p (EvCreatePeerConnection neg) = createPeerConnection p neg"
| "peer_step p EvDestroy = destroy p"

fun peer_run :: "Peer \<Rightarrow> peer_event list \<Rightarrow> Peer \<times> effect list" where
  "peer_run p [] = (p, [])"
| "peer_run p (ev # evs) =
     (let (p1, e1) = peer_step p ev; (p2, e2) = peer_run p1 evs in (p2, e1 @ e2))"

text \<open>The calls of \<^verbatim>\<open>restartIce\<close> among the effects, and the events that set the
  restart counter back to zero.\<close>

definition restarts :: "effect list \<Rightarrow> nat" where
  "restarts es = length (filter (\<lambda>e. e = Call RestartIce) es)"

fun resets_counter :: "peer_event \<Rightarrow> bool" where
  "resets_counter (EvIceConnectionState s neg) = (s = IceConnected \<or> s = IceCompleted)"
| "resets_counter EvDestroy = True"
| "resets_counter _ = False"

text \<open>The candidates of a sequence of arrivals that \<^verbatim>\<open>HandleCandidate\<close> does not ignore,
  as it normalizes them, and whether the sequence holds an end-of-candidates marker.\<close>

fun accepted :: "Peer \<Rightarrow> RTCIceCandidateInit option list \<Rightarrow> RTCIceCandidateInit list" where
  "accepted p [] = []"
| "accepted p (None # cs) = accepted p cs"
| "accepted p (Some c # cs) =
     (if usable (normalize p c) then normalize p c # accepted p cs else accepted p cs)"

definition has_marker :: "RTCIceCandidateInit option list \<Rightarrow> bool" where
  "has_marker cs = (None \<in> set cs)"


section \<open>SessionRegistry (WebRTCController)\<close>

record ClientInfo =
  ci_id :: jsstring
  ci_alias :: jsstring

datatype PeerStatus = StatusConnected | StatusNotConnected

datatype ControllerStatus = CtlDisconnected | CtlConnecting | CtlConnected

text \<open>\<open>atLocalHost\<close> stands for what \<^verbatim>\<open>isLocalHost()\<close> reads from the page's location.\<close>

record WebRTCController =
  connectionStatus :: ControllerStatus
  myId :: jsstring
  myName :: jsstring
  signaling :: SignalingConnection
  peers :: "ClientInfo list"
  peerConnections :: "jsstring \<rightharpoonup> Peer"
  peerConnectionState :: "jsstring \<rightharpoonup> PeerStatus"
  peerSessionById :: "jsstring \<rightharpoonup> jsstring"
  atLocalHost :: bool

record CandidateMessage =
  cm_peer :: ClientInfo
  cm_sessionId :: jsstring
  cm_candidate :: "RTCIceCandidateInit option"

record AnswerMessage =
  am_peer :: ClientInfo
  am_sessionId :: jsstring
  am_sdp :: jsstring

definition WebRTCController_new :: "jsstring \<Rightarrow> SignalingConnection \<Rightarrow> bool \<Rightarrow> WebRTCController" where
  "WebRTCController_new alias sc lh =
     \<lparr> connectionStatus = CtlConnecting, myId = [], myName = alias, signaling = sc, peers = [],
       peerConnections = Map.empty, peerConnectionState = Map.empty, peerSessionById = Map.empty,
       atLocalHost = lh \<rparr>"

definition constructPeer :: "WebRTCController \<Rightarrow> jsstring \<Rightarrow> jsstring \<Rightarrow> Peer" where
  "constructPeer c pid sid =
     (Peer_new pid sid (Some (getIceMode (signaling c) = Mode_none \<and> atLocalHost c)))
       \<lparr> iceServers := getIceServers (signaling c) \<rparr>"

definition setPeerSession :: "WebRTCController \<Rightarrow> jsstring \<Rightarrow> jsstring \<Rightarrow> WebRTCController" where
  "setPeerSession c pid sid = c\<lparr> peerSessionById := (peerSessionById c)(pid \<mapsto> sid) \<rparr>"

definition setPeerConnectionState :: "WebRTCController \<Rightarrow> jsstring \<Rightarrow> PeerStatus \<Rightarrow> WebRTCController" where
  "setPeerConnectionState c pid st = c\<lparr> peerConnectionState := (peerConnectionState c)(pid \<mapsto> st) \<rparr>"

text \<open>\<open>sid\<close> is the session identifier that \<^verbatim>\<open>newSessionId\<close> draws.\<close>

definition connectToPeer ::
  "WebRTCController \<Rightarrow> jsstring \<Rightarrow> jsstring \<Rightarrow> negotiation \<Rightarrow> WebRTCController \<times> effect list" where
  "connectToPeer c pid sid neg =
     (if pid = [] \<or> pid = myId c then (c, [])
      else if peerConnections c pid \<noteq> None then (c, [])
      else
        (let peer = (constructPeer c pid sid)\<lparr> isCaller := True \<rparr>;
             c1 = setPeerConnectionState (setPeerSession c pid sid) pid StatusNotConnected;
             (peer1, e) = createPeerConnection peer neg
         in (c1\<lparr> peerConnections := (peerConnections c1)(pid \<mapsto> peer1) \<rparr>, e)))"

definition connectPeer ::
  "WebRTCController \<Rightarrow> jsstring \<Rightarrow> jsstring \<Rightarrow> negotiation \<Rightarrow> WebRTCController \<times> effect list" where
  "connectPeer c pid sid neg =
     (if myId c \<noteq> [] \<and> pid \<noteq> [] \<and> pid \<noteq> myId c \<and> js_lt (myId c) pid
      then connectToPeer c pid sid neg
      else (c, []))"

definition handleIncomingAnswer ::
  "WebRTCController \<Rightarrow> AnswerMessage \<Rightarrow> bool \<Rightarrow> WebRTCController \<times> effect list" where
  "handleIncomingAnswer c msg ok =
     (if peerSessionById c (ci_id (am_peer msg)) \<noteq> Some (am_sessionId msg) then (c, [])
      else
        (case peerConnections c (ci_id (am_peer msg)) of
           None \<Rightarrow> (c, [])
         | Some peer \<Rightarrow>
             (let (peer1, e) = HandleAnswer peer \<lparr> sd_type = Answer, sd_sdp = am_sdp msg \<rparr> ok
              in (c\<lparr> peerConnections := (peerConnections c)(ci_id (am_peer msg) \<mapsto> peer1) \<rparr>, e))))"

definition handleIncomingCandidate ::
  "WebRTCController \<Rightarrow> CandidateMessage \<Rightarrow> WebRTCController \<times> effect list" where
  "handleIncomingCandidate c msg =
     (if peerSessionById c (ci_id (cm_peer msg)) \<noteq> Some (cm_sessionId msg) then (c, [])
      else
        (case peerConnections c (ci_id (cm_peer msg)) of
           None \<Rightarrow> (c, [])
         | Some peer \<Rightarrow>
             (let (peer1, e) = HandleCandidate peer (cm_candidate msg)
              in (c\<lparr> peerConnections := (peerConnections c)(ci_id (cm_peer msg) \<mapsto> peer1) \<rparr>, e))))"

text \<open>Whether the registry holds a session to \<open>pid\<close> in which it is the caller.\<close>

definition is_caller :: "WebRTCController \<Rightarrow> jsstring \<Rightarrow> bool" where
  "is_caller c pid = (case peerConnections c pid of Some peer \<Rightarrow> isCaller peer | None \<Rightarrow> False)"

text \<open>The condition under which \<^verbatim>\<open>connectPeer\<close> connects: both ids are there, they
  differ, and the registry's own id sorts before the other.\<close>

definition initiates :: "WebRTCController \<Rightarrow> jsstring \<Rightarrow> bool" where
  "initiates c pid = (myId c \<noteq> [] \<and> pid \<noteq> [] \<and> pid \<noteq> myId c \<and> js_lt (myId c) pid)"

section \<open>Invariants used in the proofs\<close>

definition chunker_ok :: "FileChunker \<Rightarrow> bool" where
  "chunker_ok c = (0 \<le> offset c \<and> offset c \<le> file_size (file_c c) \<and> 0 < chunkSize c)"

definition digester_inv :: "FileMeta \<Rightarrow> FileDigester \<Rightarrow> bool" where
  "digester_inv m d = (meta d = m \<and> 0 \<le> bytesReceivedInternal d
      \<and> bytesReceivedInternal d \<le> meta_size m
      \<and> (settled d \<longleftrightarrow> done_p d \<noteq> Pending)
      \<and> (\<not> settled d \<longrightarrow> bytesReceivedInternal d < meta_size m))"

section \<open>Example values\<close>

definition report_pdf :: File where
  "report_pdf = \<lparr> file_name = str ''report.pdf'', file_type = str ''application/pdf'',
                  file_bytes = replicate 2500000 0 \<rparr>"

definition boundaries_sent :: "(ft_error + link) option \<Rightarrow> int list option" where
  "boundaries_sent r = (case r of Some (Inr l) \<Rightarrow> Some (partition_msgs (sender_out l)) | _ \<Rightarrow> None)"

definition relay0 :: SignalingConnection where
  "relay0 = \<lparr> sc_iceServers = [], sc_iceMode = Mode_server \<rparr>"

definition controller0 :: WebRTCController where
  "controller0 = WebRTCController_new (str ''Sky Walker'') relay0 False"

text \<open>A caller whose first offer went out, and a callee whose transport is open and has
  no remote description yet.\<close>

definition caller0 :: Peer where
  "caller0 = fst (createPeerConnection
                    ((Peer_new (str ''b'') (str ''s'') None)\<lparr> isCaller := True \<rparr>)
                    (Negotiated (str ''o'')))"

definition callee0 :: Peer where
  "callee0 = fst (createPeerConnection (Peer_new (str ''a'') (str ''s'') None) CreateFails)"

definition transport0 :: RTCPeerConnection where
  "transport0 = \<lparr> pc_iceServers = [], remoteDescription = None, signalingState = Stable,
                  iceConnectionState = IceNew, connectionState = ConnNew \<rparr>"

definition cand :: "string \<Rightarrow> RTCIceCandidateInit" where
  "cand s = \<lparr> candidate = Some (str s), sdpMid = Some (str ''0''), sdpMLineIndex = Some 0,
              usernameFragment = None \<rparr>"

text \<open>A transfer engine that has taken the header of a five-byte file and waits for its
  bytes.\<close>

definition ft_pending :: FileTransfer where
  "ft_pending =
     (case onFileHeader (FileTransfer_new (str ''p'')) (str ''f'') None 5 of
        Inr (ft, outs) \<Rightarrow> ft
      | Inl (e, ft) \<Rightarrow> ft)"

text \<open>The state of the completion promise of an engine's digester, and, for a handler that
  raised, the error together with that state at the moment of the exception.\<close>

definition promise_of :: "FileTransfer \<Rightarrow> ReceivedFile promise option" where
  "promise_of ft = map_option done_p (digester ft)"

definition raised_with :: "ft_result \<Rightarrow> (ft_error \<times> ReceivedFile promise option) option" where
  "raised_with r = (case r of Inl (e, ft) \<Rightarrow> Some (e, promise_of ft) | Inr x \<Rightarrow> None)"


section \<open>The chunker reads the file in order\<close>


lemma chunks_of_append: "chunks_of (xs @ ys) = chunks_of xs @ chunks_of ys"
  by (induction xs rule: chunks_of.induct) auto

lemma blob_slice_forward:
  assumes "0 \<le> k" "k \<le> int (length b)" "0 < n"
  shows "blob_slice b k (k + n) = take (nat n) (drop (nat k) b)"
proof -
  have "take (nat (min (k + n) (int (length b)) - k)) (drop (nat k) b) = take (nat n) (drop (nat k) b)"
  proof (cases "k + n \<le> int (length b)")
    case True
    then show ?thesis by (simp add: min_def)
  next
    case False
    then have "length (drop (nat k) b) \<le> nat (int (length b) - k)" "length (drop (nat k) b) \<le> nat n"
      using assms by auto
    then show ?thesis using False by (simp add: min_def)
  qed
  then show ?thesis using assms by (simp add: blob_slice_def Let_def max_def)
qed

lemma readChunk_ok:
  assumes "chunker_ok c"
  shows "readChunk c = take (nat (chunkSize c)) (drop (nat (offset c)) (file_bytes (file_c c)))"
  using assms unfolding readChunk_def chunker_ok_def file_size_def
  by (intro blob_slice_forward) auto

lemma readChunk_nonempty:
  assumes "chunker_ok c" "\<not> isFileEnd c"
  shows "readChunk c \<noteq> []"
  using assms unfolding readChunk_ok[OF assms(1)] chunker_ok_def isFileEnd_def file_size_def
  by auto

lemma readChunk_length:
  assumes "chunker_ok c"
  shows "offset c + int (length (readChunk c)) \<le> file_size (file_c c)"
  using assms unfolding readChunk_ok[OF assms(1)] chunker_ok_def file_size_def
  by auto

lemma take_drop_extend:
  assumes "a \<le> b"
  shows "take (b - a) (drop a xs) @ take n (drop b xs) = take (b - a + n) (drop a xs)"
proof -
  have "drop b xs = drop (b - a) (drop a xs)" using assms by simp
  then show ?thesis by (metis take_add)
qed


lemma readChunk_as_take:
  assumes "chunker_ok c"
  shows "readChunk c = take (length (readChunk c)) (drop (nat (offset c)) (file_bytes (file_c c)))"
  unfolding readChunk_ok[OF assms] by (simp add: min_def)

lemma advance_ok:
  assumes "chunker_ok c"
  shows "chunker_ok (advance c (readChunk c))"
  using readChunk_length[OF assms] assms by (simp add: chunker_ok_def advance_def)

lemma chunk_loop_props:
  assumes "chunker_ok c" "chunk_loop c evs = (c', evs')"
  shows "chunker_ok c' \<and> offset c \<le> offset c' \<and> file_c c' = file_c c
       \<and> chunkSize c' = chunkSize c \<and> maxPartitionSize c' = maxPartitionSize c
       \<and> inProgress c' = inProgress c
       \<and> (isFileEnd c' \<or> isPartitionEnd c')
       \<and> (\<exists>new. evs' = evs @ map OnChunk new \<and> [] \<notin> set new
             \<and> concat new = take (nat (offset c' - offset c)) (drop (nat (offset c)) (file_bytes (file_c c))))"
  using assms
proof (induction c evs arbitrary: c' evs' rule: chunk_loop.induct)
  case (1 c evs)
  show ?case
  proof (cases "\<not> isFileEnd c \<and> \<not> isPartitionEnd c")
    case False
    then have "c' = c" "evs' = evs" using "1.prems"(2) by (auto simp: chunk_loop.simps[of c evs])
    then show ?thesis using False "1.prems"(1) by auto
  next
    case True
    let ?chunk = "readChunk c"
    let ?c1 = "advance c ?chunk"
    have ne: "?chunk \<noteq> []" using readChunk_nonempty "1.prems"(1) True by blast
    have run: "chunk_loop ?c1 (evs @ [OnChunk ?chunk]) = (c', evs')"
      using "1.prems"(2) True ne by (simp add: chunk_loop.simps[of c evs] Let_def)
    have ok1: "chunker_ok ?c1" using advance_ok "1.prems"(1) by blast
    have ih: "chunker_ok c' \<and> offset ?c1 \<le> offset c' \<and> file_c c' = file_c ?c1
       \<and> chunkSize c' = chunkSize ?c1 \<and> maxPartitionSize c' = maxPartitionSize ?c1
       \<and> inProgress c' = inProgress ?c1
       \<and> (isFileEnd c' \<or> isPartitionEnd c')
       \<and> (\<exists>new. evs' = (evs @ [OnChunk ?chunk]) @ map OnChunk new \<and> [] \<notin> set new
             \<and> concat new = take (nat (offset c' - offset ?c1)) (drop (nat (offset ?c1)) (file_bytes (file_c ?c1))))"
      using "1.IH"[OF True refl _ ok1 run] ne by simp
    then obtain new where new: "evs' = (evs @ [OnChunk ?chunk]) @ map OnChunk new" "[] \<notin> set new"
        "concat new = take (nat (offset c' - offset ?c1)) (drop (nat (offset ?c1)) (file_bytes (file_c ?c1)))"
      by blast
    let ?bs = "file_bytes (file_c c)"
    have o1: "offset ?c1 = offset c + int (length ?chunk)" by (simp add: advance_def)
    have f1: "file_c ?c1 = file_c c" by (simp add: advance_def)
    have o0: "0 \<le> offset c" using "1.prems"(1) by (simp add: chunker_ok_def)
    have le: "offset ?c1 \<le> offset c'" using ih by blast
    have "concat (?chunk # new) = take (nat (offset ?c1) - nat (offset c)) (drop (nat (offset c)) ?bs)
            @ take (nat (offset c' - offset ?c1)) (drop (nat (offset ?c1)) ?bs)"
      using readChunk_as_take[OF "1.prems"(1)] new(3) o1 o0 f1 by (simp add: nat_add_distrib)
    also have "\<dots> = take (nat (offset ?c1) - nat (offset c) + nat (offset c' - offset ?c1)) (drop (nat (offset c)) ?bs)"
      by (rule take_drop_extend) (use o1 o0 in simp)
    also have "nat (offset ?c1) - nat (offset c) + nat (offset c' - offset ?c1) = nat (offset c' - offset c)"
      using o1 o0 le by simp
    finally have cc: "concat (?chunk # new) = take (nat (offset c' - offset c)) (drop (nat (offset c)) ?bs)" .
    have "evs' = evs @ map OnChunk (?chunk # new)" using new(1) by simp
    moreover have "[] \<notin> set (?chunk # new)" using ne new(2) by auto
    ultimately have ex: "\<exists>new. evs' = evs @ map OnChunk new \<and> [] \<notin> set new
             \<and> concat new = take (nat (offset c' - offset c)) (drop (nat (offset c)) ?bs)"
      using cc by blast
    have "offset c \<le> offset c'" using le o1 by simp
    moreover have "file_c c' = file_c c" "chunkSize c' = chunkSize c" "maxPartitionSize c' = maxPartitionSize c"
       "inProgress c' = inProgress c"
      using ih by (simp_all add: advance_def)
    ultimately show ?thesis using ih ex by blast
  qed
qed


lemma chunks_of_map_OnChunk: "chunks_of (map OnChunk new) = new"
  by (induction new) auto

lemma nextPartition_props:
  assumes ok: "chunker_ok c" and np: "\<not> inProgress c" and cap: "0 < maxPartitionSize c"
    and nfe: "\<not> isFileEnd c"
  shows "\<exists>r c1 evs. nextPartition c = Inr (r, c1, evs)
           \<and> chunker_ok c1 \<and> \<not> inProgress c1 \<and> maxPartitionSize c1 = maxPartitionSize c
           \<and> file_c c1 = file_c c \<and> offset c < offset c1
           \<and> res_fileEnd r = isFileEnd c1 \<and> [] \<notin> set (chunks_of evs)
           \<and> concat (chunks_of evs) =
               take (nat (offset c1 - offset c)) (drop (nat (offset c)) (file_bytes (file_c c)))"
proof -
  let ?c0 = "c\<lparr> inProgress := True, partitionSize := 0 \<rparr>"
  obtain c' evs where run: "chunk_loop ?c0 [] = (c', evs)" by (cases "chunk_loop ?c0 []") auto
  have ok0: "chunker_ok ?c0" using ok by (simp add: chunker_ok_def)
  have nfe0: "\<not> isFileEnd ?c0" "\<not> isPartitionEnd ?c0"
    using nfe cap by (simp_all add: isFileEnd_def isPartitionEnd_def)
  from chunk_loop_props[OF ok0 run]
  obtain new where p: "chunker_ok c'" "offset c \<le> offset c'" "file_c c' = file_c c"
    "maxPartitionSize c' = maxPartitionSize c" "evs = map OnChunk new" "[] \<notin> set new"
    "concat new = take (nat (offset c' - offset c)) (drop (nat (offset c)) (file_bytes (file_c c)))"
    by auto
  have first: "chunk_loop ?c0 [] =
      chunk_loop (advance ?c0 (readChunk ?c0)) [OnChunk (readChunk ?c0)]"
    using nfe0 readChunk_nonempty[OF ok0 nfe0(1)] by (simp add: chunk_loop.simps[of ?c0 "[]"] Let_def)
  have "offset (advance ?c0 (readChunk ?c0)) \<le> offset c'"
    using chunk_loop_props[OF advance_ok[OF ok0]] run first by metis
  then have lt: "offset c < offset c'"
    using readChunk_nonempty[OF ok0 nfe0(1)] by (cases "readChunk ?c0") (simp_all add: advance_def)
  let ?evs' = "if \<not> isFileEnd c' \<and> isPartitionEnd c' then evs @ [OnPartitionEnd (offset c')] else evs"
  have np_eq: "nextPartition c = Inr (\<lparr> res_offset = offset c', res_fileEnd = isFileEnd c' \<rparr>,
                 c'\<lparr> inProgress := False \<rparr>, ?evs')"
    using np nfe run by (simp add: nextPartition_def Let_def)
  have ch: "chunks_of ?evs' = new"
    using p(5) by (simp add: chunks_of_append chunks_of_map_OnChunk)
  have "chunker_ok (c'\<lparr> inProgress := False \<rparr>)" using p(1) by (simp add: chunker_ok_def)
  moreover have "isFileEnd (c'\<lparr> inProgress := False \<rparr>) = isFileEnd c'" by (simp add: isFileEnd_def)
  ultimately show ?thesis
    using np_eq ch p(3,4,6,7) lt by simp
qed

lemma driveToEnd_props:
  assumes "chunker_ok c" "\<not> inProgress c" "0 < maxPartitionSize c"
    and "nat (file_size (file_c c) - offset c) < n"
  shows "\<exists>c2 evs. driveToEnd n c = Some (c2, evs)
           \<and> offset c2 = file_size (file_c c) \<and> file_c c2 = file_c c
           \<and> [] \<notin> set (chunks_of evs)
           \<and> concat (chunks_of evs) = drop (nat (offset c)) (file_bytes (file_c c))"
  using assms
proof (induction n arbitrary: c)
  case 0
  then show ?case by simp
next
  case (Suc n)
  show ?case
  proof (cases "isFileEnd c")
    case True
    then have "offset c = file_size (file_c c)" using Suc.prems(1) by (simp add: isFileEnd_def chunker_ok_def)
    then show ?thesis using True Suc.prems by (simp add: nextPartition_def file_size_def)
  next
    case False
    from nextPartition_props[OF Suc.prems(1,2,3) False]
    obtain r c1 evs where s: "nextPartition c = Inr (r, c1, evs)"
      "chunker_ok c1" "\<not> inProgress c1" "maxPartitionSize c1 = maxPartitionSize c"
      "file_c c1 = file_c c" "offset c < offset c1"
      "res_fileEnd r = isFileEnd c1" "[] \<notin> set (chunks_of evs)"
      "concat (chunks_of evs) =
         take (nat (offset c1 - offset c)) (drop (nat (offset c)) (file_bytes (file_c c)))"
      by blast
    have o0: "0 \<le> offset c" "offset c1 \<le> file_size (file_c c)"
      using Suc.prems(1) s(2,5) by (simp_all add: chunker_ok_def)
    show ?thesis
    proof (cases "isFileEnd c1")
      case True
      then have e: "offset c1 = file_size (file_c c)" using o0 s(5) by (simp add: isFileEnd_def)
      have "take (nat (offset c1 - offset c)) (drop (nat (offset c)) (file_bytes (file_c c)))
              = drop (nat (offset c)) (file_bytes (file_c c))"
        using e o0 by (simp add: file_size_def)
      then show ?thesis using s True e by simp
    next
      case False
      have "offset c < file_size (file_c c)" using \<open>\<not> isFileEnd c\<close> by (simp add: isFileEnd_def)
      then have "nat (file_size (file_c c1) - offset c1) < n" using Suc.prems(4) s(5,6) by simp
      from Suc.IH[OF s(2,3) _ this] Suc.prems(3) s(4)
      obtain c2 evs2 where d: "driveToEnd n c1 = Some (c2, evs2)"
        "offset c2 = file_size (file_c c1)" "file_c c2 = file_c c1" "[] \<notin> set (chunks_of evs2)"
        "concat (chunks_of evs2) = drop (nat (offset c1)) (file_bytes (file_c c1))"
        by auto
      have "nat (offset c1) = nat (offset c1 - offset c) + nat (offset c)"
        using o0 s(6) by simp
      then have "drop (nat (offset c1)) (file_bytes (file_c c)) =
            drop (nat (offset c1 - offset c)) (drop (nat (offset c)) (file_bytes (file_c c)))"
        by (simp only: drop_drop)
      then have "concat (chunks_of evs) @ concat (chunks_of evs2) = drop (nat (offset c)) (file_bytes (file_c c))"
        unfolding s(9) d(5) s(5) by (simp only: append_take_drop_id)
      then have "concat (chunks_of (evs @ evs2)) = drop (nat (offset c)) (file_bytes (file_c c))"
        by (simp add: chunks_of_append)
      then show ?thesis using s d False by (simp add: chunks_of_append)
    qed
  qed
qed


lemma feed_settled: "settled d \<Longrightarrow> feed d evs = d"
  by (induction d evs rule: feed.induct) (auto simp: unchunk_def)

lemma concat_nonempty_length:
  assumes "[] \<notin> set xs" "length (concat xs) = 0"
  shows "xs = []"
  using assms by (cases xs) auto

lemma unchunk_append:
  assumes "\<not> settled d" "b \<noteq> []" "bytesReceivedInternal d + int (length b) < meta_size (meta d)"
  shows "unchunk d b = d\<lparr> buffer := buffer d @ [b],
                          bytesReceivedInternal := bytesReceivedInternal d + int (length b) \<rparr>"
  using assms by (simp add: unchunk_def Let_def)

lemma unchunk_last:
  assumes "\<not> settled d" "b \<noteq> []" "bytesReceivedInternal d + int (length b) = meta_size (meta d)"
  shows "unchunk d b = complete_digest (d\<lparr> buffer := buffer d @ [b],
                          bytesReceivedInternal := bytesReceivedInternal d + int (length b) \<rparr>)"
proof -
  have "\<not> meta_size (meta d) \<le> bytesReceivedInternal d" using assms(2,3) by (cases b) auto
  then show ?thesis using assms by (simp add: unchunk_def Let_def)
qed

lemma feed_resolves:
  assumes "\<not> settled d"
    and "bytesReceivedInternal d = int (length (concat (buffer d)))"
    and "[] \<notin> set (chunks_of evs)"
    and "meta_size (meta d) = bytesReceivedInternal d + int (length (concat (chunks_of evs)))"
    and "chunks_of evs \<noteq> []"
  shows "done_p (feed d evs) =
           Resolved \<lparr> rf_name = meta_name (meta d), rf_mime = mime d, rf_size = meta_size (meta d),
                      rf_blob = \<lparr> blob_bytes = concat (buffer d) @ concat (chunks_of evs),
                                  blob_type = mime d \<rparr> \<rparr>"
  using assms
proof (induction d evs rule: feed.induct)
  case (1 d)
  then show ?case by simp
next
  case (2 d b evs)
  let ?d1 = "d\<lparr> buffer := buffer d @ [b],
                  bytesReceivedInternal := bytesReceivedInternal d + int (length b) \<rparr>"
  have bne: "b \<noteq> []" and rest: "[] \<notin> set (chunks_of evs)" using "2.prems"(3) by auto
  have sz: "meta_size (meta d) = bytesReceivedInternal d + int (length b) + int (length (concat (chunks_of evs)))"
    using "2.prems"(4) by simp
  show ?case
  proof (cases "chunks_of evs = []")
    case True
    then have "bytesReceivedInternal d + int (length b) = meta_size (meta d)" using sz by simp
    then have "unchunk d b = complete_digest ?d1"
      using unchunk_last "2.prems"(1) bne by blast
    then show ?thesis
      using True "2.prems"(1) by (simp add: feed_settled complete_digest_def)
  next
    case False
    then have "length (concat (chunks_of evs)) \<noteq> 0"
      using concat_nonempty_length[OF rest] by blast
    then have "bytesReceivedInternal d + int (length b) < meta_size (meta d)" using sz by linarith
    then have u: "unchunk d b = ?d1"
      using unchunk_append "2.prems"(1) bne by blast
    have "done_p (feed ?d1 evs) =
           Resolved \<lparr> rf_name = meta_name (meta ?d1), rf_mime = mime ?d1, rf_size = meta_size (meta ?d1),
                      rf_blob = \<lparr> blob_bytes = concat (buffer ?d1) @ concat (chunks_of evs),
                                  blob_type = mime ?d1 \<rparr> \<rparr>"
      using "2.IH"[unfolded u] "2.prems"(1,2) rest sz False by simp
    then show ?thesis using u by simp
  qed
next
  case (3 d k evs)
  then show ?case by simp
qed

lemma digester_inv_new:
  assumes "FileDigester_new m = Inr d"
  shows "digester_inv m d"
  using assms by (auto simp: FileDigester_new_def digester_inv_def complete_digest_def Let_def split: if_splits)

lemma digester_inv_step:
  assumes "digester_inv m d"
  shows "digester_inv m (digester_step d call)"
proof (cases call)
  case (Unchunk b)
  then show ?thesis using assms
    by (auto simp: digester_inv_def unchunk_def complete_digest_def abort_def Let_def)
next
  case (Abort r)
  then show ?thesis using assms by (auto simp: digester_inv_def abort_def)
qed

lemma digester_inv_run:
  assumes "digester_inv m d"
  shows "digester_inv m (foldl digester_step d calls)"
  using assms by (induction calls arbitrary: d) (auto simp: digester_inv_step)


section \<open>Evaluating the transfer of a 2,500,000-byte file\<close>

lemma readChunk_default:
  "chunkSize c = 64000 \<Longrightarrow> readChunk c = file_chunk (file_c c) (offset c)"
  by (simp add: readChunk_def file_chunk_def DEFAULT_CHUNK_SIZE_BYTES_def)

lemma length_file_chunk:
  assumes "length (file_bytes f) = 2500000" "0 \<le> k" "k \<le> 2500000"
  shows "length (file_chunk f k) = nat (min 64000 (2500000 - k))"
  using assms by (auto simp: file_chunk_def blob_slice_def DEFAULT_CHUNK_SIZE_BYTES_def Let_def min_def max_def)

lemma file_chunk_nonempty:
  assumes "length (file_bytes f) = 2500000" "0 \<le> k" "k < 2500000"
  shows "file_chunk f k \<noteq> []"
  using length_file_chunk[of f k] assms by (auto simp: min_def split: if_splits)

lemmas codec_eval = file_chunk_nonempty FileChunker_new_def DEFAULT_CHUNK_SIZE_BYTES_def DEFAULT_MAX_PARTITION_SIZE_BYTES_def
  nextPartition_def chunk_loop.simps isFileEnd_def isPartitionEnd_def readChunk_default advance_def
  file_size_def Let_def length_file_chunk

lemma link_run_numeral:
  "link_run (numeral k) l =
     (case link_step l of
        None \<Rightarrow> Some (Inr l)
      | Some (Inl e) \<Rightarrow> Some (Inl e)
      | Some (Inr l1) \<Rightarrow> link_run (pred_numeral k) l1)"
  by (simp add: numeral_eq_Suc)

lemma link_run_one:
  "link_run (Suc 0) l =
     (case link_step l of
        None \<Rightarrow> Some (Inr l)
      | Some (Inl e) \<Rightarrow> Some (Inl e)
      | Some (Inr l1) \<Rightarrow> None)"
  by (simp split: option.splits sum.splits) 

lemmas engine_eval = transfer_def sendFiles_def dequeueFile_def sendFile_def run_chunker_def
  sendNextPartition_def sendJSON_def onPartitionEnd_def onReceivedPartitionEnd_def sendProgress_def
  onDownloadProgress_def done_callbacks_def onFileHeader_def onChunkReceived_def
  onTransferCompletedByPeer_def FileTransfer_new_def FileDigester_new_def unchunk_def
  complete_digest_def abort_def digester_progress_def link_step_def received_bytes_def
  link_run_numeral link_run_one completions_def


lemma scenario_run:
  assumes len: "length (file_bytes f) = 2500000"
  shows "\<exists>l. transfer a b f 87 = Some (Inr l)
     \<and> partition_msgs (sender_out l) = [1024000, 2048000]
     \<and> completions (receiver_log l) = [2500000]
     \<and> filter (\<lambda>p. p = Text TransferComplete) (sender_in l) = [Text TransferComplete]
     \<and> filter (\<lambda>p. p = OnTransferCompleted) (sender_out l) = [OnTransferCompleted]
     \<and> to_receiver l = [] \<and> to_sender l = []"
  by (simp add: codec_eval engine_eval len)


lemma link_run_more:
  "link_run n l = Some r \<Longrightarrow> link_run (n + k) l = Some r"
proof (induction n arbitrary: l)
  case 0
  then show ?case by simp
next
  case (Suc n)
  then show ?case
    by (cases "link_step l") (auto split: sum.splits)
qed

lemma transfer_more:
  assumes "transfer a b f n = Some r" "n \<le> n'"
  shows "transfer a b f n' = Some r"
proof -
  obtain k where k: "n' = n + k" using assms(2) by (auto simp: le_iff_add)
  show ?thesis
    using assms(1) unfolding k transfer_def
    by (auto split: sum.splits prod.splits intro: link_run_more)
qed

section \<open>Sessions and the registry\<close>


lemma js_lt_trichotomy: "a \<noteq> b \<Longrightarrow> js_lt a b \<noteq> js_lt b a"
  by (induction a b rule: js_lt.induct) auto

lemma createPeerConnection_isCaller: "isCaller (fst (createPeerConnection p neg)) = isCaller p"
  by (auto simp: createPeerConnection_def createDataChannel_def createOffer_def Let_def
           split: negotiation.splits prod.splits option.splits)

lemma connectToPeer_caller:
  assumes "pid \<noteq> []" "pid \<noteq> myId c" "peerConnections c pid = None"
  shows "is_caller (fst (connectToPeer c pid sid neg)) pid"
proof -
  let ?peer = "(constructPeer c pid sid)\<lparr> isCaller := True \<rparr>"
  have "isCaller (fst (createPeerConnection ?peer neg))"
    by (simp add: createPeerConnection_isCaller)
  then show ?thesis using assms
    by (cases "createPeerConnection ?peer neg")
       (simp add: connectToPeer_def is_caller_def Let_def setPeerSession_def
                  setPeerConnectionState_def)
qed

lemma connectPeer_caller:
  assumes "peerConnections c pid = None"
  shows "is_caller (fst (connectPeer c pid sid neg)) pid
           \<longleftrightarrow> myId c \<noteq> [] \<and> pid \<noteq> [] \<and> pid \<noteq> myId c \<and> js_lt (myId c) pid"
  using assms connectToPeer_caller[of pid c sid neg]
  by (auto simp: connectPeer_def is_caller_def)

lemma connectPeer_initiates:
  "connectPeer c pid sid neg = (if initiates c pid then connectToPeer c pid sid neg else (c, []))"
  by (simp add: connectPeer_def initiates_def)

lemma connectPeer_without_id:
  "myId c = [] \<or> pid = [] \<Longrightarrow> connectPeer c pid sid neg = (c, [])"
  by (auto simp: connectPeer_def)

lemma connectPeer_keeps_session:
  "peerConnections c pid \<noteq> None \<Longrightarrow> connectPeer c pid sid neg = (c, [])"
  by (auto simp: connectPeer_def connectToPeer_def)

lemma is_caller_connectPeer:
  "is_caller (fst (connectPeer c pid sid neg)) pid
     = (if peerConnections c pid = None then initiates c pid else is_caller c pid)"
proof (cases "peerConnections c pid = None")
  case True
  then show ?thesis using connectPeer_caller[of c pid sid neg] by (simp add: initiates_def)
next
  case False
  then have "connectPeer c pid sid neg = (c, [])" by (rule connectPeer_keeps_session)
  then show ?thesis using False by auto
qed

lemma accepted_cong:
  "forceLoopbackHostCandidates p = forceLoopbackHostCandidates q \<Longrightarrow> accepted p cs = accepted q cs"
  by (induction p cs rule: accepted.induct) (auto simp: normalize_def)

lemma HandleCandidate_buffers:
  assumes "pc p = Some t" "remoteDescription t = None"
  shows "snd (HandleCandidate p c) = []
       \<and> pc (fst (HandleCandidate p c)) = Some t
       \<and> forceLoopbackHostCandidates (fst (HandleCandidate p c)) = forceLoopbackHostCandidates p
       \<and> sessionId (fst (HandleCandidate p c)) = sessionId p
       \<and> peerId (fst (HandleCandidate p c)) = peerId p
       \<and> pendingCandidates (fst (HandleCandidate p c)) = pendingCandidates p @ accepted p [c]
       \<and> pendingEndOfCandidates (fst (HandleCandidate p c)) = (pendingEndOfCandidates p \<or> c = None)"
  using assms by (cases c) (auto simp: HandleCandidate_def Let_def)

lemma accepted_Cons: "accepted p (c # cs) = accepted p [c] @ accepted p cs"
  by (cases c) auto

lemma candidates_buffered:
  assumes "pc p = Some t" "remoteDescription t = None"
  shows "snd (peer_run p (map EvCandidate cs)) = []
       \<and> pc (fst (peer_run p (map EvCandidate cs))) = Some t
       \<and> forceLoopbackHostCandidates (fst (peer_run p (map EvCandidate cs))) = forceLoopbackHostCandidates p
       \<and> sessionId (fst (peer_run p (map EvCandidate cs))) = sessionId p
       \<and> peerId (fst (peer_run p (map EvCandidate cs))) = peerId p
       \<and> pendingCandidates (fst (peer_run p (map EvCandidate cs))) = pendingCandidates p @ accepted p cs
       \<and> pendingEndOfCandidates (fst (peer_run p (map EvCandidate cs)))
           = (pendingEndOfCandidates p \<or> has_marker cs)"
  using assms
proof (induction cs arbitrary: p)
  case Nil
  then show ?case by (simp add: has_marker_def)
next
  case (Cons c cs)
  let ?p1 = "fst (HandleCandidate p c)"
  note h = HandleCandidate_buffers[OF Cons.prems, of c]
  have ih: "snd (peer_run ?p1 (map EvCandidate cs)) = []
       \<and> pc (fst (peer_run ?p1 (map EvCandidate cs))) = Some t
       \<and> forceLoopbackHostCandidates (fst (peer_run ?p1 (map EvCandidate cs))) = forceLoopbackHostCandidates ?p1
       \<and> sessionId (fst (peer_run ?p1 (map EvCandidate cs))) = sessionId ?p1
       \<and> peerId (fst (peer_run ?p1 (map EvCandidate cs))) = peerId ?p1
       \<and> pendingCandidates (fst (peer_run ?p1 (map EvCandidate cs))) = pendingCandidates ?p1 @ accepted ?p1 cs
       \<and> pendingEndOfCandidates (fst (peer_run ?p1 (map EvCandidate cs)))
           = (pendingEndOfCandidates ?p1 \<or> has_marker cs)"
    using Cons.IH[of ?p1] h Cons.prems(2) by blast
  have ac: "accepted ?p1 cs = accepted p cs" using accepted_cong h by blast
  have run: "peer_run p (map EvCandidate (c # cs)) =
        (fst (peer_run ?p1 (map EvCandidate cs)), snd (HandleCandidate p c) @ snd (peer_run ?p1 (map EvCandidate cs)))"
    by (simp add: Let_def split: prod.splits)
  have mk: "has_marker (c # cs) = (c = None \<or> has_marker cs)" by (auto simp: has_marker_def)
  show ?case unfolding run fst_conv snd_conv mk
    using ih h ac accepted_Cons[of p c cs] by auto
qed

lemma flush_effects:
  assumes "pc p = Some t" "remoteDescription t \<noteq> None"
  shows "flushPendingCandidates p =
          (p\<lparr> pendingCandidates := [], pendingEndOfCandidates := False \<rparr>,
           map (\<lambda>c. Call (AddIceCandidate c)) (pendingCandidates p)
           @ (if pendingEndOfCandidates p then [Call AddEndOfCandidates] else []))"
  using assms by (cases p) (auto simp: flushPendingCandidates_def Let_def)


lemma step_restart_only:
  assumes "Call RestartIce \<in> set (snd (peer_step p ev))"
  shows "(\<exists>neg. ev = EvIceConnectionState IceFailed neg) \<and> isCaller p
       \<and> (\<exists>t. pc p = Some t \<and> signalingState t = Stable) \<and> iceRestartAttempts p = 0"
proof (cases ev)
  case (EvIceConnectionState s neg)
  then show ?thesis using assms
    by (cases "pc p")
       (auto simp: oniceconnectionstatechange_def tryIceRestart_def transport_ice_def createOffer_def
                   maxIceRestartAttempts_def Let_def
             split: if_splits negotiation.splits prod.splits)
next
  case (EvSignalingState s)
  then show ?thesis using assms by simp
next
  case (EvCandidate c)
  then show ?thesis using assms
    by (auto simp: HandleCandidate_def Let_def split: option.splits if_splits)
next
  case (EvAnswer a ok)
  then show ?thesis using assms
    by (auto simp: HandleAnswer_def flushPendingCandidates_def Let_def split: option.splits if_splits)
next
  case (EvOffer a neg0 ok neg)
  then show ?thesis using assms
    by (auto simp: HandlerOffer_def flushPendingCandidates_def createPeerConnection_def
                   createDataChannel_def createOffer_def answer_effects_def Let_def
             split: option.splits if_splits negotiation.splits prod.splits)
next
  case (EvCreatePeerConnection neg)
  then show ?thesis using assms
    by (auto simp: createPeerConnection_def createDataChannel_def createOffer_def Let_def
             split: option.splits if_splits negotiation.splits prod.splits)
next
  case EvDestroy
  then show ?thesis using assms by (auto simp: destroy_def)
qed


lemma step_credit:
  "restarts (snd (peer_step p ev)) + of_bool (iceRestartAttempts (fst (peer_step p ev)) = 0)
     \<le> of_bool (iceRestartAttempts p = 0) + of_bool (resets_counter ev)"
proof (cases ev)
  case (EvIceConnectionState s neg)
  then show ?thesis
    by (cases "pc p"; cases neg)
       (auto simp: oniceconnectionstatechange_def tryIceRestart_def transport_ice_def createOffer_def
                   maxIceRestartAttempts_def restarts_def Let_def)
next
  case (EvSignalingState s)
  then show ?thesis by (simp add: transport_signaling_def restarts_def)
next
  case (EvCandidate c)
  then show ?thesis
    by (auto simp: HandleCandidate_def restarts_def Let_def split: option.splits)
next
  case (EvAnswer a ok)
  then show ?thesis
    by (auto simp: HandleAnswer_def flushPendingCandidates_def restarts_def Let_def
             split: option.splits)
next
  case (EvOffer a neg0 ok neg)
  then show ?thesis
    by (cases neg0; cases neg)
       (auto simp: HandlerOffer_def flushPendingCandidates_def createPeerConnection_def
                   createDataChannel_def createOffer_def answer_effects_def restarts_def Let_def
             split: option.splits)
next
  case (EvCreatePeerConnection neg)
  then show ?thesis
    by (cases neg)
       (auto simp: createPeerConnection_def createDataChannel_def createOffer_def restarts_def Let_def)
next
  case EvDestroy
  then show ?thesis by (auto simp: destroy_def restarts_def)
qed

lemma restarts_append: "restarts (xs @ ys) = restarts xs + restarts ys"
  by (simp add: restarts_def)

lemma run_credit:
  "restarts (snd (peer_run p evs)) + of_bool (iceRestartAttempts (fst (peer_run p evs)) = 0)
     \<le> of_bool (iceRestartAttempts p = 0) + length (filter resets_counter evs)"
proof (induction evs arbitrary: p)
  case Nil
  then show ?case by (simp add: restarts_def)
next
  case (Cons ev evs)
  obtain p1 e1 where s: "peer_step p ev = (p1, e1)" by (cases "peer_step p ev") auto
  obtain p2 e2 where r: "peer_run p1 evs = (p2, e2)" by (cases "peer_run p1 evs") auto
  have a: "restarts e1 + of_bool (iceRestartAttempts p1 = 0)
             \<le> of_bool (iceRestartAttempts p = 0) + of_bool (resets_counter ev)"
    using step_credit[of p ev] s by simp
  have b: "restarts e2 + of_bool (iceRestartAttempts p2 = 0)
             \<le> of_bool (iceRestartAttempts p1 = 0) + length (filter resets_counter evs)"
    using Cons.IH[of p1] r by simp
  have "peer_run p (ev # evs) = (p2, e1 @ e2)" using s r by simp
  then show ?case using a b by (auto simp: restarts_append split: if_splits)
qed

section \<open>The claims\<close>

text \<open>
  Claim C1. For every file and every positive chunk size and partition cap, the chunks that
  \<^verbatim>\<open>nextPartition\<close>, driven to the end of the file, emits, handed in order to
  \<^verbatim>\<open>unchunk\<close> of a digester constructed with the file's size, complete the digester
  with a blob whose bytes are the file's bytes; the chunker ends with progress 1. Driving
  the chunker takes fewer calls than the file has bytes, plus one.
\<close>

theorem chunk_digest_roundtrip:
  assumes "0 < cs" "0 < cap" "length (file_bytes f) < n"
  shows "\<exists>c evs d0 rf.
           driveToEnd n (FileChunker_new f (Some cs) (Some cap)) = Some (c, evs)
         \<and> FileDigester_new \<lparr> meta_size = file_size f, meta_mime = mt, meta_name = nm \<rparr> = Inr d0
         \<and> done_p (feed d0 evs) = Resolved rf
         \<and> blob_bytes (rf_blob rf) = file_bytes f
         \<and> rf_size rf = file_size f
         \<and> offset c = file_size f
         \<and> chunker_progress c = 1"
proof -
  let ?c0 = "FileChunker_new f (Some cs) (Some cap)"
  let ?m = "\<lparr> meta_size = file_size f, meta_mime = mt, meta_name = nm \<rparr>"
  have ok: "chunker_ok ?c0" "\<not> inProgress ?c0" "0 < maxPartitionSize ?c0"
    "nat (file_size (file_c ?c0) - offset ?c0) < n"
    using assms by (simp_all add: chunker_ok_def FileChunker_new_def file_size_def)
  from driveToEnd_props[OF ok]
  obtain c evs where d: "driveToEnd n ?c0 = Some (c, evs)" "offset c = file_size f" "file_c c = f"
    "[] \<notin> set (chunks_of evs)" "concat (chunks_of evs) = file_bytes f"
    by (auto simp: FileChunker_new_def)
  have prog: "chunker_progress c = 1" using d(2,3) by (simp add: chunker_progress_def)
  obtain d0 where d0: "FileDigester_new ?m = Inr d0"
    by (auto simp: FileDigester_new_def file_size_def Let_def)
  have "\<exists>rf. done_p (feed d0 evs) = Resolved rf \<and> blob_bytes (rf_blob rf) = file_bytes f
             \<and> rf_size rf = file_size f"
  proof (cases "file_bytes f = []")
    case True
    then have "settled d0" "done_p d0 = Resolved \<lparr> rf_name = nm, rf_mime = mime d0, rf_size = 0,
          rf_blob = \<lparr> blob_bytes = [], blob_type = mime d0 \<rparr> \<rparr>"
      using d0 by (auto simp: FileDigester_new_def file_size_def complete_digest_def Let_def)
    then show ?thesis using True by (simp add: feed_settled file_size_def)
  next
    case False
    then have pre: "\<not> settled d0" "buffer d0 = []" "bytesReceivedInternal d0 = 0" "meta d0 = ?m"
      using d0 by (auto simp: FileDigester_new_def file_size_def Let_def)
    have ne: "chunks_of evs \<noteq> []" using False d(5) by auto
    have "done_p (feed d0 evs) =
           Resolved \<lparr> rf_name = meta_name (meta d0), rf_mime = mime d0, rf_size = meta_size (meta d0),
                      rf_blob = \<lparr> blob_bytes = concat (buffer d0) @ concat (chunks_of evs),
                                  blob_type = mime d0 \<rparr> \<rparr>"
      by (rule feed_resolves) (use pre d(4,5) ne in \<open>simp_all add: file_size_def\<close>)
    then show ?thesis using pre d(5) by simp
  qed
  then show ?thesis using d(1,2) d0 prog by blast
qed

theorem chunk_digest_roundtrip_witness:
  "(0::int) < 2 \<and> (0::int) < 3
   \<and> length (file_bytes \<lparr> file_name = str ''five'', file_type = [], file_bytes = [1, 2, 3, 4, 5] \<rparr>) < 6
   \<and> (\<exists>c evs d0 rf.
         driveToEnd 6 (FileChunker_new \<lparr> file_name = str ''five'', file_type = [], file_bytes = [1, 2, 3, 4, 5] \<rparr>
                         (Some 2) (Some 3)) = Some (c, evs)
       \<and> FileDigester_new \<lparr> meta_size = 5, meta_mime = None, meta_name = str ''five'' \<rparr> = Inr d0
       \<and> done_p (feed d0 evs) = Resolved rf
       \<and> blob_bytes (rf_blob rf) = [1, 2, 3, 4, 5]
       \<and> chunker_progress c = 1)"
  using chunk_digest_roundtrip
          [of 2 3 "\<lparr> file_name = str ''five'', file_type = [], file_bytes = [1, 2, 3, 4, 5] \<rparr>" 6
              None "str ''five''"]
  by (simp add: file_size_def) blast

text \<open>
  Claim C2, as amended. A file of 2,500,000 bytes is sent with the default chunk size
  64,000 and partition cap 1,000,000. The sender emits exactly two partition boundaries, at
  the offsets 1,024,000 and 2,048,000; the third partition ends the file, and at the end
  of the file no boundary is emitted. The sender is handed exactly one
  \<^verbatim>\<open>transfer-complete\<close>, and the receiver answered it in the delivery that took its
  digester to 2,500,000 bytes received and in no other. The transfer comes to rest, with
  nothing in flight, after 86 deliveries, so any bound above 86 is enough.
\<close>

theorem report_transfer_two_boundaries_one_completion:
  assumes "length (file_bytes f) = 2500000" "87 \<le> n"
  shows "\<exists>l. transfer a b f n = Some (Inr l)
     \<and> partition_msgs (sender_out l) = [1024000, 2048000]
     \<and> completions (receiver_log l) = [2500000]
     \<and> filter (\<lambda>p. p = Text TransferComplete) (sender_in l) = [Text TransferComplete]
     \<and> filter (\<lambda>p. p = OnTransferCompleted) (sender_out l) = [OnTransferCompleted]
     \<and> to_receiver l = [] \<and> to_sender l = []"
proof -
  from scenario_run[OF assms(1), of a b]
  obtain l where l: "transfer a b f 87 = Some (Inr l)"
     "partition_msgs (sender_out l) = [1024000, 2048000]"
     "completions (receiver_log l) = [2500000]"
     "filter (\<lambda>p. p = Text TransferComplete) (sender_in l) = [Text TransferComplete]"
     "filter (\<lambda>p. p = OnTransferCompleted) (sender_out l) = [OnTransferCompleted]"
     "to_receiver l = []" "to_sender l = []"
    by blast
  have "transfer a b f n = Some (Inr l)" using transfer_more[OF l(1) assms(2)] .
  then show ?thesis using l(2-7) by blast
qed

theorem report_transfer_two_boundaries_one_completion_witness:
  "length (file_bytes report_pdf) = 2500000 \<and> (87::nat) \<le> 100
   \<and> (\<exists>l. transfer (str ''a'') (str ''b'') report_pdf 100 = Some (Inr l)
       \<and> partition_msgs (sender_out l) = [1024000, 2048000]
       \<and> completions (receiver_log l) = [2500000]
       \<and> filter (\<lambda>p. p = Text TransferComplete) (sender_in l) = [Text TransferComplete]
       \<and> filter (\<lambda>p. p = OnTransferCompleted) (sender_out l) = [OnTransferCompleted]
       \<and> to_receiver l = [] \<and> to_sender l = [])"
proof -
  have h: "length (file_bytes report_pdf) = 2500000" "(87::nat) \<le> 100"
    by (simp_all add: report_pdf_def)
  show ?thesis
    using h report_transfer_two_boundaries_one_completion [OF h, of "str ''a''" "str ''b''"]
    by blast
qed

theorem report_transfer_three_boundaries_counterexample:
  "boundaries_sent (transfer (str ''a'') (str ''b'') report_pdf 87) = Some [1024000, 2048000]
   \<and> map_option length (boundaries_sent (transfer (str ''a'') (str ''b'') report_pdf 87)) \<noteq> Some 3"
proof -
  have h: "length (file_bytes report_pdf) = 2500000" by (simp add: report_pdf_def)
  from scenario_run [OF h, of "str ''a''" "str ''b''"]
  obtain l where "transfer (str ''a'') (str ''b'') report_pdf 87 = Some (Inr l)"
    "partition_msgs (sender_out l) = [1024000, 2048000]"
    by blast
  then show ?thesis by (simp add: boundaries_sent_def)
qed

text \<open>
  Claim C3. Take a digester constructed with a declared size above zero, after any sequence
  of \<^verbatim>\<open>unchunk\<close> and \<^verbatim>\<open>abort\<close> calls. While it is not settled, a call of
  \<^verbatim>\<open>unchunk\<close> with a chunk larger than the bytes still expected rejects the completion
  promise and settles the digester. Once it is settled, by completion or by abort, the
  promise is no longer pending and every further \<^verbatim>\<open>unchunk\<close> or \<^verbatim>\<open>abort\<close> leaves
  the whole digester, its promise included, as it is.
\<close>

theorem oversize_chunk_aborts_and_settlement_is_final:
  assumes "0 < meta_size m"
  shows "\<exists>d0. FileDigester_new m = Inr d0
     \<and> (\<not> settled (foldl digester_step d0 calls)
          \<and> int (length chunk) > meta_size m - bytesReceivedInternal (foldl digester_step d0 calls)
          \<longrightarrow> done_p (unchunk (foldl digester_step d0 calls) chunk) = Rejected ChunkLargerThanRemaining
              \<and> settled (unchunk (foldl digester_step d0 calls) chunk))
     \<and> (settled (foldl digester_step d0 calls)
          \<longrightarrow> done_p (foldl digester_step d0 calls) \<noteq> Pending
              \<and> unchunk (foldl digester_step d0 calls) chunk = foldl digester_step d0 calls
              \<and> abort (foldl digester_step d0 calls) r = foldl digester_step d0 calls)"
proof -
  obtain d0 where d0: "FileDigester_new m = Inr d0"
    using assms by (auto simp: FileDigester_new_def Let_def)
  define d where "d = foldl digester_step d0 calls"
  have inv: "digester_inv m d"
    unfolding d_def using d0 digester_inv_new digester_inv_run by blast
  have "(\<not> settled d \<and> int (length chunk) > meta_size m - bytesReceivedInternal d
            \<longrightarrow> done_p (unchunk d chunk) = Rejected ChunkLargerThanRemaining
                \<and> settled (unchunk d chunk))
       \<and> (settled d \<longrightarrow> done_p d \<noteq> Pending \<and> unchunk d chunk = d \<and> abort d r = d)"
    using inv by (auto simp: digester_inv_def unchunk_def abort_def Let_def)
  then show ?thesis using d0 unfolding d_def by blast
qed

theorem oversize_chunk_aborts_and_settlement_is_final_witness:
  "(0::int) < 3
   \<and> (\<exists>d0. FileDigester_new \<lparr> meta_size = 3, meta_mime = None, meta_name = str ''f'' \<rparr> = Inr d0
        \<and> \<not> settled (foldl digester_step d0 [Unchunk [7]])
        \<and> int (length [8, 9, 10 :: 8 word]) > 3 - bytesReceivedInternal (foldl digester_step d0 [Unchunk [7]])
        \<and> done_p (unchunk (foldl digester_step d0 [Unchunk [7]]) [8, 9, 10]) = Rejected ChunkLargerThanRemaining
        \<and> settled (unchunk (foldl digester_step d0 [Unchunk [7]]) [8, 9, 10]))
   \<and> (\<exists>d0. FileDigester_new \<lparr> meta_size = 3, meta_mime = None, meta_name = str ''f'' \<rparr> = Inr d0
        \<and> settled (foldl digester_step d0 [Unchunk [7], Unchunk [8, 9]])
        \<and> done_p (foldl digester_step d0 [Unchunk [7], Unchunk [8, 9]]) \<noteq> Pending
        \<and> unchunk (foldl digester_step d0 [Unchunk [7], Unchunk [8, 9]]) [8, 9, 10]
            = foldl digester_step d0 [Unchunk [7], Unchunk [8, 9]]
        \<and> abort (foldl digester_step d0 [Unchunk [7], Unchunk [8, 9]]) None
            = foldl digester_step d0 [Unchunk [7], Unchunk [8, 9]])"
  using oversize_chunk_aborts_and_settlement_is_final
          [of "\<lparr> meta_size = 3, meta_mime = None, meta_name = str ''f'' \<rparr>" "[Unchunk [7]]" "[8, 9, 10]" None]
        oversize_chunk_aborts_and_settlement_is_final
          [of "\<lparr> meta_size = 3, meta_mime = None, meta_name = str ''f'' \<rparr>"
              "[Unchunk [7], Unchunk [8, 9]]" "[8, 9, 10]" None]
  by (simp add: FileDigester_new_def unchunk_def complete_digest_def Let_def)

text \<open>
  Claim C4. A digester constructed with declared size 0 is settled by its constructor:
  its completion promise is resolved, with a blob of no bytes, before any call of
  \<^verbatim>\<open>unchunk\<close>; its buffer is empty, it has received no byte, and its progress is 1.
  On the sending side a chunker of a file without bytes is at the end of its file from
  the start: \<^verbatim>\<open>nextPartition\<close> returns at once and emits no chunk.
\<close>

theorem zero_size_completes_on_construction:
  assumes "meta_size m = 0" "file_bytes f = []"
  shows "(\<exists>d rf. FileDigester_new m = Inr d \<and> settled d \<and> buffer d = [] \<and> bytesReceivedInternal d = 0
          \<and> done_p d = Resolved rf \<and> blob_bytes (rf_blob rf) = [] \<and> rf_size rf = 0
          \<and> digester_progress d = 1)
       \<and> nextPartition (FileChunker_new f cs mps)
           = Inr (\<lparr> res_offset = 0, res_fileEnd = True \<rparr>, FileChunker_new f cs mps, [])
       \<and> chunker_progress (FileChunker_new f cs mps) = 1"
  using assms
  by (simp add: FileDigester_new_def complete_digest_def digester_progress_def Let_def
        nextPartition_def FileChunker_new_def isFileEnd_def file_size_def chunker_progress_def)

theorem zero_size_completes_on_construction_witness:
  "meta_size \<lparr> meta_size = 0, meta_mime = None, meta_name = str ''empty'' \<rparr> = 0
   \<and> file_bytes \<lparr> file_name = str ''empty'', file_type = [], file_bytes = [] \<rparr> = []
   \<and> (\<exists>d rf. FileDigester_new \<lparr> meta_size = 0, meta_mime = None, meta_name = str ''empty'' \<rparr> = Inr d
         \<and> settled d \<and> buffer d = [] \<and> bytesReceivedInternal d = 0
         \<and> done_p d = Resolved rf \<and> blob_bytes (rf_blob rf) = [] \<and> rf_size rf = 0
         \<and> digester_progress d = 1)
   \<and> nextPartition (FileChunker_new \<lparr> file_name = str ''empty'', file_type = [], file_bytes = [] \<rparr> None None)
       = Inr (\<lparr> res_offset = 0, res_fileEnd = True \<rparr>,
              FileChunker_new \<lparr> file_name = str ''empty'', file_type = [], file_bytes = [] \<rparr> None None, [])"
  using zero_size_completes_on_construction
          [of "\<lparr> meta_size = 0, meta_mime = None, meta_name = str ''empty'' \<rparr>"
              "\<lparr> file_name = str ''empty'', file_type = [], file_bytes = [] \<rparr>" None None]
  by simp

text \<open>
  Claim C5. The tie-break rule compares the two ids as strings, code unit by code unit: the
  side whose own id sorts before the other's is the caller. Of two distinct strings exactly
  one sorts before the other, so the rule selects exactly one side, never both and never
  neither. An identity is an id that the relay has assigned; a registry's own id is the
  empty string until then. For every pair of distinct identities A and B: of the registry
  with id A deciding about B and the registry with id B deciding about A, exactly one
  decides to connect, the one whose id sorts first. \<^verbatim>\<open>connectPeer\<close> calls
  \<^verbatim>\<open>connectToPeer\<close> on that side only and leaves the other registry as it is, waiting
  for the offer; the side that decides to connect opens its session as caller, and a
  registry that holds a session to the other already keeps it, with the role on record.
\<close>

theorem tie_break_selects_one_caller:
  assumes "A \<noteq> B"
  shows "js_lt A B \<noteq> js_lt B A
       \<and> (A \<noteq> [] \<and> B \<noteq> [] \<and> myId ca = A \<and> myId cb = B \<longrightarrow>
            initiates ca B \<noteq> initiates cb A
          \<and> (initiates ca B \<longleftrightarrow> js_lt A B)
          \<and> connectPeer ca B s1 n1 = (if initiates ca B then connectToPeer ca B s1 n1 else (ca, []))
          \<and> connectPeer cb A s2 n2 = (if initiates cb A then connectToPeer cb A s2 n2 else (cb, []))
          \<and> is_caller (fst (connectPeer ca B s1 n1)) B
              = (if peerConnections ca B = None then initiates ca B else is_caller ca B)
          \<and> is_caller (fst (connectPeer cb A s2 n2)) A
              = (if peerConnections cb A = None then initiates cb A else is_caller cb A))"
proof -
  have t: "js_lt A B \<noteq> js_lt B A" using assms by (rule js_lt_trichotomy)
  have inner: "initiates ca B \<noteq> initiates cb A
          \<and> (initiates ca B \<longleftrightarrow> js_lt A B)
          \<and> connectPeer ca B s1 n1 = (if initiates ca B then connectToPeer ca B s1 n1 else (ca, []))
          \<and> connectPeer cb A s2 n2 = (if initiates cb A then connectToPeer cb A s2 n2 else (cb, []))
          \<and> is_caller (fst (connectPeer ca B s1 n1)) B
              = (if peerConnections ca B = None then initiates ca B else is_caller ca B)
          \<and> is_caller (fst (connectPeer cb A s2 n2)) A
              = (if peerConnections cb A = None then initiates cb A else is_caller cb A)"
    if h: "A \<noteq> [] \<and> B \<noteq> [] \<and> myId ca = A \<and> myId cb = B"
  proof -
    have i: "initiates ca B = js_lt A B" "initiates cb A = js_lt B A"
      using h assms by (auto simp: initiates_def)
    have c1: "initiates ca B \<noteq> initiates cb A" using i t by simp
    show ?thesis
      by (intro conjI c1 i(1) connectPeer_initiates is_caller_connectPeer)
  qed
  show ?thesis using t inner by blast
qed

theorem tie_break_selects_one_caller_witness:
  "str ''a'' \<noteq> str ''b''
   \<and> str ''a'' \<noteq> [] \<and> str ''b'' \<noteq> []
   \<and> myId (controller0\<lparr> myId := str ''a'' \<rparr>) = str ''a''
   \<and> myId (controller0\<lparr> myId := str ''b'' \<rparr>) = str ''b''
   \<and> js_lt (str ''a'') (str ''b'') \<and> \<not> js_lt (str ''b'') (str ''a'')
   \<and> initiates (controller0\<lparr> myId := str ''a'' \<rparr>) (str ''b'')
   \<and> \<not> initiates (controller0\<lparr> myId := str ''b'' \<rparr>) (str ''a'')
   \<and> is_caller (fst (connectPeer (controller0\<lparr> myId := str ''a'' \<rparr>) (str ''b'') (str ''s1'') CreateFails)) (str ''b'')
   \<and> connectPeer (controller0\<lparr> myId := str ''b'' \<rparr>) (str ''a'') (str ''s2'') CreateFails
       = (controller0\<lparr> myId := str ''b'' \<rparr>, [])"
proof -
  have d: "str ''a'' \<noteq> str ''b''" by (simp add: str_def)
  have h: "str ''a'' \<noteq> []" "str ''b'' \<noteq> []"
    "myId (controller0\<lparr> myId := str ''a'' \<rparr>) = str ''a''"
    "myId (controller0\<lparr> myId := str ''b'' \<rparr>) = str ''b''"
    by (simp_all add: str_def)
  have lt: "js_lt (str ''a'') (str ''b'')" by (simp add: str_def)
  have n: "peerConnections (controller0\<lparr> myId := str ''a'' \<rparr>) (str ''b'') = None"
    by (simp add: controller0_def WebRTCController_new_def)
  show ?thesis
    using d h lt n
      tie_break_selects_one_caller
          [OF d, of "controller0\<lparr> myId := str ''a'' \<rparr>" "controller0\<lparr> myId := str ''b'' \<rparr>"
                 "str ''s1''" CreateFails "str ''s2''" CreateFails]
    by auto
qed

text \<open>
  Claim C6. When the session on record for a remote id is Y, a CANDIDATE message of that
  remote id carrying another session id X is dropped: the registry, and with it the
  session Y (its transport, its buffer of pending candidates, its connection status),
  stays as it is, and nothing is handed to the transport.
\<close>

theorem stale_candidate_dropped:
  assumes "peerSessionById c rid = Some Y" "X \<noteq> Y" "ci_id (cm_peer msg) = rid" "cm_sessionId msg = X"
  shows "handleIncomingCandidate c msg = (c, [])"
  using assms by (simp add: handleIncomingCandidate_def)

theorem stale_candidate_dropped_witness:
  "peerSessionById (controller0\<lparr> peerSessionById := [str ''p1'' \<mapsto> str ''Y''],
                                 peerConnections := [str ''p1'' \<mapsto> callee0] \<rparr>) (str ''p1'') = Some (str ''Y'')
   \<and> str ''X'' \<noteq> str ''Y''
   \<and> handleIncomingCandidate
        (controller0\<lparr> peerSessionById := [str ''p1'' \<mapsto> str ''Y''],
                       peerConnections := [str ''p1'' \<mapsto> callee0] \<rparr>)
        \<lparr> cm_peer = \<lparr> ci_id = str ''p1'', ci_alias = [] \<rparr>, cm_sessionId = str ''X'',
          cm_candidate = Some (cand ''candidate:1 1 udp 1 10.0.0.1 9 typ host'') \<rparr>
       = (controller0\<lparr> peerSessionById := [str ''p1'' \<mapsto> str ''Y''],
                        peerConnections := [str ''p1'' \<mapsto> callee0] \<rparr>, [])"
  using stale_candidate_dropped
          [of "controller0\<lparr> peerSessionById := [str ''p1'' \<mapsto> str ''Y''],
                              peerConnections := [str ''p1'' \<mapsto> callee0] \<rparr>"
              "str ''p1''" "str ''Y''" "str ''X''"
              "\<lparr> cm_peer = \<lparr> ci_id = str ''p1'', ci_alias = [] \<rparr>, cm_sessionId = str ''X'',
                 cm_candidate = Some (cand ''candidate:1 1 udp 1 10.0.0.1 9 typ host'') \<rparr>"]
  by (simp add: str_def)

text \<open>
  Claim C7, as amended. Take a session with a transport that has no remote description yet,
  and any sequence of remote candidates and end-of-candidates markers delivered to it.
  Nothing is handed to the transport on arrival. Every candidate with a candidate string
  that is not empty is appended to the buffer, in the order of arrival (as rewritten, under
  forced loopback); a candidate whose candidate string is empty or missing is ignored, as
  it is once a remote description exists; a marker sets the pending flag. \<open>accepted\<close>
  lists the candidates of the sequence that are not ignored. When an answer or an offer
  then sets the remote description, the calls that follow it at once are one
  \<^verbatim>\<open>addIceCandidate\<close> for each buffered candidate, in the order of arrival, and after
  them, when a marker had arrived, the end-of-candidates call; the buffer is left empty
  and the flag cleared. No candidate that entered the buffer is dropped or reordered.
\<close>

theorem candidates_flushed_in_arrival_order:
  assumes "pc p = Some t" "remoteDescription t = None"
  shows "\<exists>p1. peer_run p (map EvCandidate cs) = (p1, [])
      \<and> pendingCandidates p1 = pendingCandidates p @ accepted p cs
      \<and> pendingEndOfCandidates p1 = (pendingEndOfCandidates p \<or> has_marker cs)
      \<and> (\<exists>p2. HandleAnswer p1 answer True =
                 (p2, Call (SetRemoteDescription answer)
                      # map (\<lambda>c. Call (AddIceCandidate c)) (pendingCandidates p @ accepted p cs)
                      @ (if pendingEndOfCandidates p \<or> has_marker cs then [Call AddEndOfCandidates] else []))
               \<and> pendingCandidates p2 = [] \<and> \<not> pendingEndOfCandidates p2)
      \<and> (\<exists>p3. HandlerOffer p1 offer neg0 True neg =
                 (p3, Call (SetRemoteDescription offer)
                      # map (\<lambda>c. Call (AddIceCandidate c)) (pendingCandidates p @ accepted p cs)
                      @ (if pendingEndOfCandidates p \<or> has_marker cs then [Call AddEndOfCandidates] else [])
                      @ answer_effects p neg)
               \<and> pendingCandidates p3 = [] \<and> \<not> pendingEndOfCandidates p3)"
proof -
  obtain p1 e1 where run: "peer_run p (map EvCandidate cs) = (p1, e1)"
    by (cases "peer_run p (map EvCandidate cs)") auto
  from candidates_buffered[OF assms, of cs] run
  have b: "e1 = []" "pc p1 = Some t" "sessionId p1 = sessionId p" "peerId p1 = peerId p"
    "pendingCandidates p1 = pendingCandidates p @ accepted p cs"
    "pendingEndOfCandidates p1 = (pendingEndOfCandidates p \<or> has_marker cs)"
    by auto
  let ?q = "\<lambda>d. p1\<lparr> pc := Some (t\<lparr> remoteDescription := Some d \<rparr>) \<rparr>"
  have fl: "flushPendingCandidates (?q d) =
          ((?q d)\<lparr> pendingCandidates := [], pendingEndOfCandidates := False \<rparr>,
           map (\<lambda>c. Call (AddIceCandidate c)) (pendingCandidates p1)
           @ (if pendingEndOfCandidates p1 then [Call AddEndOfCandidates] else []))" for d
    using flush_effects[of "?q d" "t\<lparr> remoteDescription := Some d \<rparr>"] by simp
  have ans: "answer_effects ((?q d)\<lparr> pendingCandidates := [], pendingEndOfCandidates := False \<rparr>) neg
               = answer_effects p neg" for d
    using b(3,4) by (cases neg) (simp_all add: answer_effects_def)
  have A: "HandleAnswer p1 answer True =
             ((?q answer)\<lparr> pendingCandidates := [], pendingEndOfCandidates := False \<rparr>,
              Call (SetRemoteDescription answer)
                # map (\<lambda>c. Call (AddIceCandidate c)) (pendingCandidates p1)
                @ (if pendingEndOfCandidates p1 then [Call AddEndOfCandidates] else []))"
    using b(2) by (simp add: HandleAnswer_def Let_def fl)
  have O: "HandlerOffer p1 offer neg0 True neg =
             ((?q offer)\<lparr> pendingCandidates := [], pendingEndOfCandidates := False \<rparr>,
              Call (SetRemoteDescription offer)
                # map (\<lambda>c. Call (AddIceCandidate c)) (pendingCandidates p1)
                @ (if pendingEndOfCandidates p1 then [Call AddEndOfCandidates] else [])
                @ answer_effects p neg)"
    using b(2) by (simp add: HandlerOffer_def Let_def fl ans)
  show ?thesis
    by (rule exI[of _ p1]) (simp add: run A O b(1,5,6))
qed

theorem candidates_flushed_in_arrival_order_witness:
  "pc callee0 = Some transport0 \<and> remoteDescription transport0 = None
   \<and> (\<exists>p1. peer_run callee0
              (map EvCandidate [Some (cand ''candidate:1 1 udp 1 10.0.0.1 9 typ host''), None,
                                Some (cand ''candidate:2 1 udp 1 1.2.3.4 9 typ srflx'')]) = (p1, [])
        \<and> pendingCandidates p1 = [cand ''candidate:1 1 udp 1 10.0.0.1 9 typ host'',
                                   cand ''candidate:2 1 udp 1 1.2.3.4 9 typ srflx'']
        \<and> pendingEndOfCandidates p1
        \<and> (\<exists>p2. HandleAnswer p1 \<lparr> sd_type = Answer, sd_sdp = str ''v=0'' \<rparr> True =
                   (p2, [Call (SetRemoteDescription \<lparr> sd_type = Answer, sd_sdp = str ''v=0'' \<rparr>),
                         Call (AddIceCandidate (cand ''candidate:1 1 udp 1 10.0.0.1 9 typ host'')),
                         Call (AddIceCandidate (cand ''candidate:2 1 udp 1 1.2.3.4 9 typ srflx'')),
                         Call AddEndOfCandidates])
                 \<and> pendingCandidates p2 = [] \<and> \<not> pendingEndOfCandidates p2))"
proof -
  let ?c1 = "cand ''candidate:1 1 udp 1 10.0.0.1 9 typ host''"
  let ?c2 = "cand ''candidate:2 1 udp 1 1.2.3.4 9 typ srflx''"
  let ?ans = "\<lparr> sd_type = Answer, sd_sdp = str ''v=0'' \<rparr>"
  have h: "pc callee0 = Some transport0" "remoteDescription transport0 = None"
    by (simp_all add: callee0_def transport0_def createPeerConnection_def Peer_new_def Let_def)
  have v: "pendingCandidates callee0 = []" "\<not> pendingEndOfCandidates callee0"
    "\<not> forceLoopbackHostCandidates callee0"
    by (simp_all add: callee0_def createPeerConnection_def Peer_new_def Let_def)
  have acc: "pendingCandidates callee0 @ accepted callee0 [Some ?c1, None, Some ?c2] = [?c1, ?c2]"
    by (simp add: v normalize_def usable_def cand_def str_def)
  have mk: "(pendingEndOfCandidates callee0 \<or> has_marker [Some ?c1, None, Some ?c2]) = True"
    by (simp add: has_marker_def)
  from candidates_flushed_in_arrival_order
         [OF h, of "[Some ?c1, None, Some ?c2]" ?ans "\<lparr> sd_type = Offer, sd_sdp = str ''v=0'' \<rparr>"
                CreateFails CreateFails]
  obtain p1 p2 where r: "peer_run callee0 (map EvCandidate [Some ?c1, None, Some ?c2]) = (p1, [])"
    "pendingCandidates p1 = pendingCandidates callee0 @ accepted callee0 [Some ?c1, None, Some ?c2]"
    "pendingEndOfCandidates p1 = (pendingEndOfCandidates callee0 \<or> has_marker [Some ?c1, None, Some ?c2])"
    "HandleAnswer p1 ?ans True =
       (p2, Call (SetRemoteDescription ?ans)
            # map (\<lambda>c. Call (AddIceCandidate c))
                (pendingCandidates callee0 @ accepted callee0 [Some ?c1, None, Some ?c2])
            @ (if pendingEndOfCandidates callee0 \<or> has_marker [Some ?c1, None, Some ?c2]
               then [Call AddEndOfCandidates] else []))"
    "pendingCandidates p2 = []" "\<not> pendingEndOfCandidates p2"
    by blast
  have a: "HandleAnswer p1 ?ans True =
       (p2, [Call (SetRemoteDescription ?ans), Call (AddIceCandidate ?c1), Call (AddIceCandidate ?c2),
             Call AddEndOfCandidates])"
    using r(4) unfolding acc mk by simp
  have b: "pendingCandidates p1 = [?c1, ?c2]" "pendingEndOfCandidates p1"
    using r(2,3) unfolding acc mk by simp_all
  show ?thesis using h r(1,5,6) a b by blast
qed

theorem empty_candidate_not_buffered_counterexample:
  "pc callee0 = Some transport0 \<and> remoteDescription transport0 = None
   \<and> peer_run callee0 [EvCandidate (Some (cand ''''))] = (callee0, [])
   \<and> pendingCandidates callee0 = []
   \<and> snd (HandleAnswer callee0 \<lparr> sd_type = Answer, sd_sdp = str ''v=0'' \<rparr> True)
       = [Call (SetRemoteDescription \<lparr> sd_type = Answer, sd_sdp = str ''v=0'' \<rparr>)]"
  by (simp add: callee0_def transport0_def createPeerConnection_def Peer_new_def Let_def
        HandleCandidate_def normalize_def usable_def cand_def str_def HandleAnswer_def
        flushPendingCandidates_def)

text \<open>
  Claim C8, as amended. A call of \<^verbatim>\<open>restartIce\<close> is made only by the handler of an ICE
  state change to \<^verbatim>\<open>failed\<close>, only in a session whose role is caller, and only while
  the transport's signaling state is \<^verbatim>\<open>stable\<close>. The counter of attempts is set back
  to zero whenever the ICE state becomes \<^verbatim>\<open>connected\<close> or \<^verbatim>\<open>completed\<close> (and by
  \<^verbatim>\<open>destroy\<close>), so a session makes at most one restart attempt between two such events:
  over any sequence of events, at most one more than the number of such events in it.
\<close>

theorem ice_restart_policy:
  "(Call RestartIce \<in> set (snd (peer_step p ev)) \<longrightarrow>
       (\<exists>neg. ev = EvIceConnectionState IceFailed neg) \<and> isCaller p
       \<and> (\<exists>t. pc p = Some t \<and> signalingState t = Stable))
   \<and> restarts (snd (peer_run p evs)) \<le> 1 + length (filter resets_counter evs)"
proof -
  have "restarts (snd (peer_run p evs)) \<le> 1 + length (filter resets_counter evs)"
    using run_credit[of p evs] by (simp add: of_bool_def split: if_splits)
  then show ?thesis using step_restart_only[of p ev] by blast
qed

theorem ice_restart_policy_witness:
  "Call RestartIce \<in> set (snd (peer_step caller0 (EvIceConnectionState IceFailed CreateFails)))
   \<and> isCaller caller0
   \<and> (\<exists>t. pc caller0 = Some t \<and> signalingState t = Stable)
   \<and> restarts (snd (peer_run caller0 [EvIceConnectionState IceFailed CreateFails,
                                        EvIceConnectionState IceFailed CreateFails]))
       \<le> 1 + length (filter resets_counter [EvIceConnectionState IceFailed CreateFails,
                                                EvIceConnectionState IceFailed CreateFails])"
proof -
  have m: "Call RestartIce \<in> set (snd (peer_step caller0 (EvIceConnectionState IceFailed CreateFails)))"
    by (simp add: caller0_def Peer_new_def createPeerConnection_def createDataChannel_def createOffer_def
          oniceconnectionstatechange_def tryIceRestart_def transport_ice_def maxIceRestartAttempts_def
          Let_def)
  show ?thesis
    using m ice_restart_policy
              [of caller0 "EvIceConnectionState IceFailed CreateFails"
                  "[EvIceConnectionState IceFailed CreateFails, EvIceConnectionState IceFailed CreateFails]"]
    by blast
qed

theorem second_restart_after_reconnect_counterexample:
  "restarts (snd (peer_run caller0
       [EvSignalingState HaveLocalOffer,
        EvAnswer \<lparr> sd_type = Answer, sd_sdp = str ''a'' \<rparr> True,
        EvSignalingState Stable,
        EvIceConnectionState IceConnected CreateFails,
        EvIceConnectionState IceFailed (Negotiated (str ''r1'')),
        EvSignalingState HaveLocalOffer,
        EvAnswer \<lparr> sd_type = Answer, sd_sdp = str ''a1'' \<rparr> True,
        EvSignalingState Stable,
        EvIceConnectionState IceConnected CreateFails,
        EvIceConnectionState IceFailed (Negotiated (str ''r2''))])) = 2"
  by (simp add: caller0_def Peer_new_def createPeerConnection_def createDataChannel_def createOffer_def
        oniceconnectionstatechange_def tryIceRestart_def transport_ice_def transport_signaling_def
        HandleAnswer_def flushPendingCandidates_def maxIceRestartAttempts_def restarts_def Let_def
        FileTransfer_new_def)

text \<open>
  Claim C9. \<^verbatim>\<open>getIceServers\<close> returns the empty list in mode \<^verbatim>\<open>none\<close>; in mode
  \<^verbatim>\<open>stun\<close> the list of the one public STUN server
  \<^verbatim>\<open>stun:stun.l.google.com:19302\<close>, whatever the relay supplied; and in mode
  \<^verbatim>\<open>server\<close> the list that the relay supplied when it is not empty, and the list of the
  public STUN server otherwise.
\<close>

theorem getIceServers_modes:
  "getIceServers (sc\<lparr> sc_iceMode := Mode_none \<rparr>) = []
   \<and> getIceServers (sc\<lparr> sc_iceMode := Mode_stun \<rparr>) = [defaultStunServer]
   \<and> getIceServers (sc\<lparr> sc_iceMode := Mode_server \<rparr>)
       = (if sc_iceServers sc = [] then [defaultStunServer] else sc_iceServers sc)
   \<and> defaultStunServer
       = \<lparr> urls = [str ''stun:stun.l.google.com:19302''], username = None, credential = None \<rparr>"
  by (simp add: getIceServers_def defaultStunServer_def)

theorem getIceServers_modes_witness:
  "getIceServers \<lparr> sc_iceServers = [\<lparr> urls = [str ''turn:relay.example:3478''], username = Some (str ''u''),
                                       credential = Some (str ''c'') \<rparr>], sc_iceMode = Mode_server \<rparr>
     = [\<lparr> urls = [str ''turn:relay.example:3478''], username = Some (str ''u''), credential = Some (str ''c'') \<rparr>]
   \<and> getIceServers \<lparr> sc_iceServers = [\<lparr> urls = [str ''turn:relay.example:3478''], username = Some (str ''u''),
                                         credential = Some (str ''c'') \<rparr>], sc_iceMode = Mode_stun \<rparr>
     = [defaultStunServer]
   \<and> getIceServers \<lparr> sc_iceServers = [\<lparr> urls = [str ''turn:relay.example:3478''], username = Some (str ''u''),
                                         credential = Some (str ''c'') \<rparr>], sc_iceMode = Mode_none \<rparr>
     = []"
  using getIceServers_modes
          [of "\<lparr> sc_iceServers = [\<lparr> urls = [str ''turn:relay.example:3478''], username = Some (str ''u''),
                                     credential = Some (str ''c'') \<rparr>], sc_iceMode = Mode_server \<rparr>"]
  by simp

text \<open>
  Claim C10, as amended. The constructor of \<^verbatim>\<open>FileDigester\<close> throws exactly when the
  declared size is negative. Consequently a header with a negative size makes the
  receive-side handler raise, and no digester is created for it. Before it raises, the
  handler has set the last reported progress back to zero and has aborted the digester of
  the previous header: if that digester was still pending, its promise is now rejected;
  it stays the engine's digester.
\<close>

theorem negative_size_header_raises:
  "((\<exists>e. FileDigester_new m = Inl e) \<longleftrightarrow> meta_size m < 0)
   \<and> (sz < 0 \<longrightarrow>
        handleIncomingMessage ft (InMessage (Header nm mt sz)) =
          Inl (DigesterError NegativeMetaSize,
               ft\<lparr> lastProgress := 0,
                   digester := map_option (\<lambda>d. abort d (Some NewHeaderBeforeCompletion)) (digester ft) \<rparr>))"
  by (simp add: FileDigester_new_def onFileHeader_def Let_def)

theorem negative_size_header_raises_witness:
  "(- 1 :: int) < 0
   \<and> (\<exists>e. FileDigester_new \<lparr> meta_size = - 1, meta_mime = None, meta_name = str ''g'' \<rparr> = Inl e)
   \<and> handleIncomingMessage (FileTransfer_new (str ''p'')) (InMessage (Header (str ''g'') None (- 1))) =
       Inl (DigesterError NegativeMetaSize, FileTransfer_new (str ''p''))"
  using negative_size_header_raises
          [of "\<lparr> meta_size = - 1, meta_mime = None, meta_name = str ''g'' \<rparr>" "- 1"
              "FileTransfer_new (str ''p'')" "str ''g''" None]
  by (simp add: FileTransfer_new_def)

theorem negative_size_header_aborts_pending_counterexample:
  "promise_of ft_pending = Some Pending
   \<and> raised_with (handleIncomingMessage ft_pending (InMessage (Header (str ''g'') None (- 1))))
       = Some (DigesterError NegativeMetaSize, Some (Rejected NewHeaderBeforeCompletion))"
  by (simp add: promise_of_def raised_with_def ft_pending_def onFileHeader_def FileTransfer_new_def
                FileDigester_new_def abort_def Let_def done_callbacks_def)

end
